theory Spec2Isabelle
  imports Main "HOL-Library.Word" "HOL-Library.Log_Nat"
begin

section \<open>Column-type inference and timestamp parsing of the CSV loader\<close>

text \<open>
  A shallow embedding of \<^verbatim>\<open>plotjuggler_plugins/DataLoadCSV/timestamp_parsing.cpp\<close>.
  Strings are \<open>char list\<close>s. A C++ exception, and a read outside a string's bounds, is a
  value of the type \<open>error\<close>; a function that can meet one returns \<open>error + 'a\<close>.
  \<open>std::optional<double>\<close> is \<open>double option\<close>.
\<close>

subsection \<open>Errors\<close>

datatype error =
    InvalidArgument  \<comment> \<open>\<^verbatim>\<open>std::invalid_argument\<close>, thrown by \<^verbatim>\<open>std::stoll\<close>\<close>
  | OutOfRange       \<comment> \<open>\<^verbatim>\<open>std::out_of_range\<close>, thrown by \<^verbatim>\<open>std::stoll\<close> and \<^verbatim>\<open>substr\<close>\<close>
  | OutOfBounds      \<comment> \<open>a read outside the string (undefined behaviour, not an exception)\<close>

definition rbind :: "error + 'a \<Rightarrow> ('a \<Rightarrow> error + 'b) \<Rightarrow> error + 'b" where
  "rbind m f = (case m of Inl e \<Rightarrow> Inl e | Inr v \<Rightarrow> f v)"

text \<open>\<^verbatim>\<open>try { body } catch (...) { handler }\<close>: every exception is caught; undefined
  behaviour is not an exception and is not caught.\<close>

definition try_catch :: "error + 'a \<Rightarrow> (error + 'a) \<Rightarrow> error + 'a" where
  "try_catch body handler =
     (case body of
        Inl e \<Rightarrow> (if e = OutOfBounds then Inl e else handler)
      | Inr v \<Rightarrow> Inr v)"

subsection \<open>Characters and the string operations of the standard library\<close>

definition isdigit :: "char \<Rightarrow> bool" where
  "isdigit c \<longleftrightarrow> c \<in> set ''0123456789''"

definition isspace :: "char \<Rightarrow> bool" where
  "isspace c \<longleftrightarrow> c \<in> set [CHR '' '', CHR 0x09, CHR 0x0A, CHR 0x0B, CHR 0x0C, CHR 0x0D]"

text \<open>\<^verbatim>\<open>c - '0'\<close>, computed in \<^verbatim>\<open>int\<close>.\<close>

definition digit_value :: "char \<Rightarrow> int" where
  "digit_value c = of_char c - 48"

text \<open>\<^verbatim>\<open>std::string::npos\<close> is \<open>None\<close>; a position is a \<open>nat\<close>.\<close>

definition find_first_not_of :: "string \<Rightarrow> string \<Rightarrow> nat option" where
  "find_first_not_of str cs =
     (let n = length (takeWhile (\<lambda>c. c \<in> set cs) str)
      in if n = length str then None else Some n)"

definition find_last_not_of :: "string \<Rightarrow> string \<Rightarrow> nat option" where
  "find_last_not_of str cs =
     (let n = length (takeWhile (\<lambda>c. c \<in> set cs) (rev str))
      in if n = length str then None else Some (length str - 1 - n))"

text \<open>\<^verbatim>\<open>str.find(c, pos)\<close>: the first position from \<open>pos\<close> on that holds \<open>c\<close>.\<close>

definition find_char :: "string \<Rightarrow> char \<Rightarrow> nat \<Rightarrow> nat option" where
  "find_char str c pos =
     (if length str \<le> pos then None
      else (let n = length (takeWhile (\<lambda>x. x \<noteq> c) (drop pos str))
            in if pos + n < length str then Some (pos + n) else None))"

text \<open>\<^verbatim>\<open>str.rfind(c)\<close>: the last position that holds \<open>c\<close>.\<close>

definition rfind_char :: "string \<Rightarrow> char \<Rightarrow> nat option" where
  "rfind_char str c =
     (let n = length (takeWhile (\<lambda>x. x \<noteq> c) (rev str))
      in if n = length str then None else Some (length str - 1 - n))"

text \<open>\<^verbatim>\<open>str.find(pat, pos)\<close> for a string pattern.\<close>

fun first_occurrence :: "string \<Rightarrow> string \<Rightarrow> nat option" where
  "first_occurrence pat [] = (if pat = [] then Some 0 else None)"
| "first_occurrence pat (x # xs) =
     (if take (length pat) (x # xs) = pat then Some 0
      else map_option Suc (first_occurrence pat xs))"

definition find_str :: "string \<Rightarrow> string \<Rightarrow> nat \<Rightarrow> nat option" where
  "find_str str pat pos =
     (if length str < pos then None
      else map_option (\<lambda>i. pos + i) (first_occurrence pat (drop pos str)))"

text \<open>\<^verbatim>\<open>str.substr(pos, n)\<close> and \<^verbatim>\<open>str.substr(pos)\<close> throw \<^verbatim>\<open>std::out_of_range\<close> when
  \<open>pos\<close> is beyond the end.\<close>

definition substr :: "string \<Rightarrow> nat \<Rightarrow> nat \<Rightarrow> error + string" where
  "substr str pos n = (if length str < pos then Inl OutOfRange else Inr (take n (drop pos str)))"

definition substr_from :: "string \<Rightarrow> nat \<Rightarrow> error + string" where
  "substr_from str pos = (if length str < pos then Inl OutOfRange else Inr (drop pos str))"

text \<open>\<^verbatim>\<open>std::stoll(str, nullptr, base)\<close>: \<^verbatim>\<open>strtoll\<close> skips leading white space, reads an
  optional sign, for base 16 an optional \<^verbatim>\<open>0x\<close> prefix, and the longest run of digits of the
  base. No digit at all is \<^verbatim>\<open>std::invalid_argument\<close>; a value outside the 64-bit range is
  \<^verbatim>\<open>std::out_of_range\<close>. Characters after the digits are ignored.\<close>

definition digit_in_base :: "nat \<Rightarrow> char \<Rightarrow> nat option" where
  "digit_in_base base c =
     (let n = (of_char c :: nat);
          v = (if 48 \<le> n \<and> n \<le> 57 then Some (n - 48)
               else if 97 \<le> n \<and> n \<le> 122 then Some (n - 87)
               else if 65 \<le> n \<and> n \<le> 90 then Some (n - 55)
               else None)
      in case v of None \<Rightarrow> None | Some d \<Rightarrow> (if d < base then Some d else None))"

definition digits_value :: "nat \<Rightarrow> string \<Rightarrow> int" where
  "digits_value base ds =
     foldl (\<lambda>acc c. acc * int base + int (case digit_in_base base c of None \<Rightarrow> 0 | Some d \<Rightarrow> d)) 0 ds"

definition has_hex_prefix :: "string \<Rightarrow> bool" where
  "has_hex_prefix s \<longleftrightarrow>
     (case s of
        a # b # c # _ \<Rightarrow> a = CHR ''0'' \<and> (b = CHR ''x'' \<or> b = CHR ''X'') \<and> digit_in_base 16 c \<noteq> None
      | _ \<Rightarrow> False)"

definition stoll :: "nat \<Rightarrow> string \<Rightarrow> error + int" where
  "stoll base str =
     (let s1 = dropWhile isspace str;
          neg = (s1 \<noteq> [] \<and> hd s1 = CHR ''-'');
          s2 = (if s1 \<noteq> [] \<and> (hd s1 = CHR ''-'' \<or> hd s1 = CHR ''+'') then tl s1 else s1);
          s3 = (if base = 16 \<and> has_hex_prefix s2 then drop 2 s2 else s2);
          ds = takeWhile (\<lambda>c. digit_in_base base c \<noteq> None) s3;
          v = (if neg then - digits_value base ds else digits_value base ds)
      in if ds = [] then Inl InvalidArgument
         else if v < - (2 ^ 63) \<or> 2 ^ 63 - 1 < v then Inl OutOfRange
         else Inr v)"

subsection \<open>Trim\<close>

definition trim_chars :: string where
  "trim_chars = [CHR '' '', CHR 0x09, CHR 0x0D, CHR 0x0A]"

text \<open>The last line computes \<^verbatim>\<open>end - start + 1\<close> in \<^verbatim>\<open>size_t\<close>, a 64-bit word; \<^verbatim>\<open>npos\<close>
  is the word \<open>- 1\<close>.\<close>

definition Trim :: "string \<Rightarrow> error + string" where
  "Trim str =
     (case find_first_not_of str trim_chars of
        None \<Rightarrow> Inr []
      | Some start \<Rightarrow>
          (case find_last_not_of str trim_chars of
             None \<Rightarrow> substr str start (unat (- 1 - word_of_nat start + 1 :: 64 word))
           | Some end' \<Rightarrow> substr str start (end' - start + 1)))"

subsection \<open>NumericInfo and CheckNumeric\<close>

record NumericInfo =
  is_number :: bool
  has_decimal :: bool
  has_exponent :: bool

text \<open>The scan loop of \<^verbatim>\<open>CheckNumeric\<close>, from index \<open>i\<close> on; a \<^verbatim>\<open>break\<close> returns
  at once, a \<^verbatim>\<open>continue\<close> goes on at \<open>i + 1\<close>. The second component is \<^verbatim>\<open>has_digit\<close>.\<close>

function CheckNumeric_scan :: "string \<Rightarrow> nat \<Rightarrow> NumericInfo \<Rightarrow> bool \<Rightarrow> NumericInfo \<times> bool" where
  "CheckNumeric_scan str i info has_digit =
     (if i < length str then
        (if str ! i = CHR ''e'' \<or> str ! i = CHR ''E'' then
           (if has_exponent info then (info\<lparr>is_number := False\<rparr>, has_digit)
            else CheckNumeric_scan str (i + 1) (info\<lparr>has_exponent := True\<rparr>) has_digit)
         else if str ! i = CHR ''-'' \<or> str ! i = CHR ''+'' then
           (if i = 0 \<or> str ! (i - 1) = CHR ''e'' \<or> str ! (i - 1) = CHR ''E''
            then CheckNumeric_scan str (i + 1) info has_digit
            else (info\<lparr>is_number := False\<rparr>, has_digit))
         else if str ! i = CHR ''.'' \<or> str ! i = CHR '','' then
           (if has_decimal info \<or> has_exponent info then (info\<lparr>is_number := False\<rparr>, has_digit)
            else CheckNumeric_scan str (i + 1) (info\<lparr>has_decimal := True\<rparr>) has_digit)
         else if isdigit (str ! i) then CheckNumeric_scan str (i + 1) info True
         else (info\<lparr>is_number := False\<rparr>, has_digit))
      else (info, has_digit))"
  by pat_completeness auto
termination
  by (relation "measure (\<lambda>(str, i, info, has_digit). length str - i)") auto

declare CheckNumeric_scan.simps [simp del]

text \<open>After the loop \<^verbatim>\<open>str.back()\<close> is read whenever \<^verbatim>\<open>is_number\<close> still holds; on the empty
  string that read is outside the string.\<close>

definition CheckNumeric :: "string \<Rightarrow> error + NumericInfo" where
  "CheckNumeric str =
     (case CheckNumeric_scan str 0 \<lparr>is_number = True, has_decimal = False, has_exponent = False\<rparr> False of
        (info, has_digit) \<Rightarrow>
          if is_number info then
            (if str = [] then Inl OutOfBounds
             else if \<not> has_digit \<or> last str = CHR ''e'' \<or> last str = CHR ''E''
                     \<or> last str = CHR ''+'' \<or> last str = CHR ''-''
                  then Inr (info\<lparr>is_number := False\<rparr>)
                  else Inr info)
          else Inr info)"

subsection \<open>Column types and the epoch classifier\<close>

datatype ColumnType =
  NUMBER | HEX | EPOCH_SECONDS | EPOCH_MILLIS | EPOCH_MICROS | EPOCH_NANOS | DATETIME | STRING

record ColumnTypeInfo =
  type :: ColumnType
  format :: string
  has_fractional :: bool

text \<open>Modelled from the spec: the declaration of \<^verbatim>\<open>ColumnTypeInfo\<close> is in the header
  \<^verbatim>\<open>timestamp_parsing.h\<close>, which is not among the sources. A fresh \<^verbatim>\<open>ColumnTypeInfo info;\<close>
  has the empty format; \<open>has_fractional\<close> is "true if the sample contained a sub-second
  part", so it starts as false. \<^verbatim>\<open>DetectColumnType\<close> assigns the type on every path.\<close>

definition ColumnTypeInfo_default :: ColumnTypeInfo where
  "ColumnTypeInfo_default = \<lparr>type = STRING, format = [], has_fractional = False\<rparr>"

definition EPOCH_FIRST :: int where "EPOCH_FIRST = 1400000000"
definition EPOCH_LAST :: int where "EPOCH_LAST = 2000000000"

text \<open>\<open>ts\<close> is the value of an \<^verbatim>\<open>int64_t\<close>; the scaled bounds are below \<open>2 ^ 63\<close>.\<close>

definition DetectEpochType :: "int \<Rightarrow> ColumnType" where
  "DetectEpochType ts =
     (if EPOCH_FIRST * 1000000000 < ts \<and> ts < EPOCH_LAST * 1000000000 then EPOCH_NANOS
      else if EPOCH_FIRST * 1000000 < ts \<and> ts < EPOCH_LAST * 1000000 then EPOCH_MICROS
      else if EPOCH_FIRST * 1000 < ts \<and> ts < EPOCH_LAST * 1000 then EPOCH_MILLIS
      else if EPOCH_FIRST < ts \<and> ts < EPOCH_LAST then EPOCH_SECONDS
      else NUMBER)"

subsection \<open>Doubles\<close>

text \<open>A \<^verbatim>\<open>double\<close> is its value: a rational for a finite one (the two zeros are one
  value), and the three values that are not numbers of their own. The arithmetic of this file
  only ever meets finite values: \<open>round_double\<close> rounds a rational to the nearest number with
  a 53-bit significand, ties to even (IEEE 754 binary64, in the range of the normal
  numbers, which the 64-bit integers, their products with \<open>1e-9\<close> and their quotients by
  \<open>1e9\<close> never leave).\<close>

datatype double = Fin rat | PInf | NInf | NaN

definition round_half_even :: "rat \<Rightarrow> int" where
  "round_half_even q =
     (let f = \<lfloor>q\<rfloor>; r = q - of_int f
      in if r < 1 / 2 then f else if 1 / 2 < r then f + 1 else if even f then f else f + 1)"

text \<open>The exponent \<open>e\<close> with \<open>2 ^ e \<le> \<bar>x\<bar> < 2 ^ (e + 1)\<close>, for \<open>x \<noteq> 0\<close>.\<close>

definition binade :: "rat \<Rightarrow> int" where
  "binade x =
     (case quotient_of \<bar>x\<bar> of
        (p, q) \<Rightarrow> (let d = bitlen p - bitlen q in if 2 powi d \<le> \<bar>x\<bar> then d else d - 1))"

definition round_double :: "rat \<Rightarrow> rat" where
  "round_double x =
     (if x = 0 then 0
      else (let u = 2 powi (binade x - 52) in of_int (round_half_even (x / u)) * u))"

text \<open>\<^verbatim>\<open>static_cast<double>(ts)\<close> for a 64-bit integer.\<close>

definition double_of_int64 :: "int \<Rightarrow> rat" where
  "double_of_int64 n = round_double (of_int n)"

text \<open>The literals \<^verbatim>\<open>1e-9\<close>, \<^verbatim>\<open>1e-6\<close>, \<^verbatim>\<open>1e-3\<close> are the doubles nearest to those
  numbers; the product of two doubles is rounded once more.\<close>

definition EpochToSeconds :: "int \<Rightarrow> ColumnType \<Rightarrow> double" where
  "EpochToSeconds ts t =
     (case t of
        EPOCH_NANOS \<Rightarrow> Fin (round_double (double_of_int64 ts * round_double (1 / 10 ^ 9)))
      | EPOCH_MICROS \<Rightarrow> Fin (round_double (double_of_int64 ts * round_double (1 / 10 ^ 6)))
      | EPOCH_MILLIS \<Rightarrow> Fin (round_double (double_of_int64 ts * round_double (1 / 10 ^ 3)))
      | _ \<Rightarrow> Fin (double_of_int64 ts))"

subsection \<open>ExtractFractionalSeconds\<close>

text \<open>The loop \<^verbatim>\<open>while (frac_end < input.size() && isdigit(input[frac_end])) frac_end++\<close>.\<close>

function skip_digits :: "string \<Rightarrow> nat \<Rightarrow> nat" where
  "skip_digits input frac_end =
     (if frac_end < length input \<and> isdigit (input ! frac_end)
      then skip_digits input (frac_end + 1) else frac_end)"
  by pat_completeness auto
termination
  by (relation "measure (\<lambda>(input, frac_end). length input - frac_end)") auto

declare skip_digits.simps [simp del]

text \<open>The result is the base string and the count of nanoseconds (an \<^verbatim>\<open>int64_t\<close>).\<close>

definition ExtractFractionalSeconds :: "string \<Rightarrow> error + (string \<times> int)" where
  "ExtractFractionalSeconds input =
     (case rfind_char input CHR ''.'' of
        None \<Rightarrow> Inr (input, 0)
      | Some dot_pos \<Rightarrow>
          (case rfind_char input CHR '':'' of
             None \<Rightarrow> Inr (input, 0)
           | Some colon_pos \<Rightarrow>
               if dot_pos \<le> colon_pos then Inr (input, 0)
               else
                 (let frac_start = dot_pos + 1;
                      frac_end = skip_digits input frac_start
                  in if frac_end \<le> frac_start then Inr (input, 0)
                     else
                       rbind (substr input frac_start (frac_end - frac_start)) (\<lambda>frac_str.
                       rbind (if length frac_str < 9
                              then Inr (frac_str @ replicate (9 - length frac_str) CHR ''0'')
                              else if 9 < length frac_str then substr frac_str 0 9
                              else Inr frac_str) (\<lambda>frac_str9.
                       rbind (try_catch (stoll 10 frac_str9) (Inr 0)) (\<lambda>fractional_ns.
                       rbind (substr input 0 dot_pos) (\<lambda>before.
                       rbind (substr_from input frac_end) (\<lambda>after.
                       Inr (before @ after, fractional_ns)))))))))"

subsection \<open>IsDayFirstFormat\<close>

text \<open>The two digit loops accumulate in an \<^verbatim>\<open>int\<close>: a 32-bit word here, so that a run of
  more than nine digits wraps around (in C++ the overflow is undefined; two's-complement
  wrap-around is what the compiled code does).\<close>

function read_field :: "string \<Rightarrow> nat \<Rightarrow> 32 word \<Rightarrow> 32 word \<times> nat" where
  "read_field str pos acc =
     (if pos < length str \<and> isdigit (str ! pos)
      then read_field str (pos + 1) (acc * 10 + word_of_int (digit_value (str ! pos)))
      else (acc, pos))"
  by pat_completeness auto
termination
  by (relation "measure (\<lambda>(str, pos, acc). length str - pos)") auto

declare read_field.simps [simp del]

definition IsDayFirstFormat :: "string \<Rightarrow> char \<Rightarrow> bool" where
  "IsDayFirstFormat str separator =
     (case read_field str 0 0 of
        (first, pos1) \<Rightarrow>
          (let pos2 = (if pos1 < length str \<and> str ! pos1 = separator then pos1 + 1 else pos1)
           in case read_field str pos2 0 of
                (second, pos3) \<Rightarrow>
                  if 12 < sint first \<and> sint first \<le> 31 then True
                  else if 12 < sint second \<and> sint second \<le> 31 then False
                  else True))"

subsection \<open>The two library primitives\<close>

text \<open>Two functions of other libraries are called and are not part of the sources; the
  model takes them as parameters.
  \<^item> \<open>locale_toDouble\<close> is \<^verbatim>\<open>QLocale::c().toDouble(text, &ok)\<close>: \<open>None\<close> when \<^verbatim>\<open>ok\<close> is false.
  \<^item> \<open>date_parse fmt text\<close> is \<^verbatim>\<open>in >> date::parse(fmt, tp)\<close> on a stream over \<open>text\<close>:
    \<open>None\<close> when the stream has failed, otherwise the seconds since the epoch of \<^verbatim>\<open>tp\<close> (an
    \<^verbatim>\<open>int64_t\<close>) and the part of the text the stream has not read.
  Neither throws (the stream's exception mask is empty).\<close>

record prims =
  locale_toDouble :: "string \<Rightarrow> double option"
  date_parse :: "string \<Rightarrow> string \<Rightarrow> (int \<times> string) option"

definition toDouble :: "prims \<Rightarrow> string \<Rightarrow> double option" where
  "toDouble P str = locale_toDouble P (map (\<lambda>c. if c = CHR '','' then CHR ''.'' else c) str)"

text \<open>A \<^verbatim>\<open>const char*\<close> ends at the first NUL character.\<close>

definition c_str :: "string \<Rightarrow> string" where
  "c_str s = takeWhile (\<lambda>c. c \<noteq> CHR 0x00) s"

subsection \<open>TryParseFormat and the format table\<close>

text \<open>\<^verbatim>\<open>total_ns\<close> is computed in \<^verbatim>\<open>int64_t\<close> (a 64-bit word, read as signed); the
  conversion to \<^verbatim>\<open>duration<double>\<close> divides the converted count by \<open>1e9\<close>.\<close>

definition TryParseFormat :: "prims \<Rightarrow> string \<Rightarrow> string \<Rightarrow> int \<Rightarrow> double option" where
  "TryParseFormat P base_str fmt fractional_ns =
     (case date_parse P fmt base_str of
        None \<Rightarrow> None
      | Some (secs, rest) \<Rightarrow>
          (let total_ns = sint (word_of_int secs * 1000000000 + word_of_int fractional_ns :: 64 word)
           in Some (Fin (round_double (double_of_int64 total_ns / double_of_int64 1000000000)))))"

definition UNAMBIGUOUS_FORMATS :: "string list" where
  "UNAMBIGUOUS_FORMATS =
     [''%Y-%m-%dT%H:%M:%S'', ''%Y-%m-%dT%H:%M:%S%z'', ''%Y-%m-%dT%H:%M:%SZ'',
      ''%Y-%m-%d %H:%M:%S'', ''%Y-%m-%d %H:%M:%S%z'', ''%Y-%m-%d'',
      ''%Y/%m/%d %H:%M:%S'']"

text \<open>The loop over the table in \<^verbatim>\<open>AutoParseTimestamp\<close>: the first success is returned.\<close>

fun try_formats :: "prims \<Rightarrow> string \<Rightarrow> int \<Rightarrow> string list \<Rightarrow> double option" where
  "try_formats P base_str fractional_ns [] = None"
| "try_formats P base_str fractional_ns (fmt # fmts) =
     (case TryParseFormat P base_str fmt fractional_ns of
        Some result \<Rightarrow> Some result
      | None \<Rightarrow> try_formats P base_str fractional_ns fmts)"

text \<open>The lambda \<^verbatim>\<open>try_format\<close> of \<^verbatim>\<open>DetectColumnType\<close> and its loop over the table.\<close>

definition try_format :: "prims \<Rightarrow> string \<Rightarrow> string \<Rightarrow> bool" where
  "try_format P base_str fmt \<longleftrightarrow> date_parse P fmt base_str \<noteq> None"

fun first_format :: "prims \<Rightarrow> string \<Rightarrow> string list \<Rightarrow> string option" where
  "first_format P base_str [] = None"
| "first_format P base_str (fmt # fmts) =
     (if try_format P base_str fmt then Some fmt else first_format P base_str fmts)"

subsection \<open>AutoParseTimestamp\<close>

text \<open>The numeric block: \<open>Some r\<close> is \<^verbatim>\<open>return r\<close>; \<open>None\<close> is falling through to the
  datetime formats (the string is not numeric, or \<^verbatim>\<open>std::stoll\<close> threw and the exception
  was caught).\<close>

definition auto_numeric :: "prims \<Rightarrow> string \<Rightarrow> NumericInfo \<Rightarrow> error + double option option" where
  "auto_numeric P trimmed num_info =
     (if is_number num_info then
        try_catch
          (if \<not> has_decimal num_info \<and> \<not> has_exponent num_info
           then rbind (stoll 10 trimmed) (\<lambda>ts. Inr (Some (Some (EpochToSeconds ts (DetectEpochType ts)))))
           else Inr (Some (toDouble P trimmed)))
          (Inr None)
      else Inr None)"

definition auto_slash :: "prims \<Rightarrow> string \<Rightarrow> int \<Rightarrow> double option" where
  "auto_slash P base_str fractional_ns =
     (if find_char base_str CHR ''/'' 0 \<noteq> None \<and> base_str \<noteq> [] \<and> base_str ! 0 \<noteq> CHR ''2''
      then TryParseFormat P base_str
             (if IsDayFirstFormat base_str CHR ''/'' then ''%d/%m/%Y %H:%M:%S'' else ''%m/%d/%Y %H:%M:%S'')
             fractional_ns
      else None)"

definition auto_dash :: "prims \<Rightarrow> string \<Rightarrow> int \<Rightarrow> double option" where
  "auto_dash P base_str fractional_ns =
     (if find_char base_str CHR ''-'' 0 \<noteq> None \<and> base_str \<noteq> [] \<and> base_str ! 0 \<noteq> CHR ''2''
      then (if IsDayFirstFormat base_str CHR ''-''
            then TryParseFormat P base_str ''%d-%m-%Y %H:%M:%S'' fractional_ns
            else None)
      else None)"

definition auto_datetime :: "prims \<Rightarrow> string \<Rightarrow> error + double option" where
  "auto_datetime P trimmed =
     rbind (ExtractFractionalSeconds trimmed) (\<lambda>(base_str, fractional_ns).
       case try_formats P base_str fractional_ns UNAMBIGUOUS_FORMATS of
         Some result \<Rightarrow> Inr (Some result)
       | None \<Rightarrow>
           (case auto_slash P base_str fractional_ns of
              Some result \<Rightarrow> Inr (Some result)
            | None \<Rightarrow>
                (case auto_dash P base_str fractional_ns of
                   Some result \<Rightarrow> Inr (Some result)
                 | None \<Rightarrow> Inr None)))"

definition AutoParseTimestamp :: "prims \<Rightarrow> string \<Rightarrow> error + double option" where
  "AutoParseTimestamp P str =
     rbind (Trim str) (\<lambda>trimmed.
       if trimmed = [] then Inr None
       else
         rbind (CheckNumeric trimmed) (\<lambda>num_info.
         rbind (auto_numeric P trimmed num_info) (\<lambda>returned.
           case returned of
             Some result \<Rightarrow> Inr result
           | None \<Rightarrow> auto_datetime P trimmed)))"

subsection \<open>FormatParseTimestamp\<close>

function count_z :: "string \<Rightarrow> nat \<Rightarrow> nat \<Rightarrow> nat" where
  "count_z fmt z_start z_count =
     (if z_start + z_count < length fmt \<and> fmt ! (z_start + z_count) = CHR ''z''
      then count_z fmt z_start (z_count + 1) else z_count)"
  by pat_completeness auto
termination
  by (relation "measure (\<lambda>(fmt, z_start, z_count). length fmt - (z_start + z_count))") auto

declare count_z.simps [simp del]

text \<open>\<^verbatim>\<open>s.replace(pos, len, to)\<close> throws \<^verbatim>\<open>std::out_of_range\<close> when \<open>pos\<close> is beyond the end.\<close>

definition replace_at :: "string \<Rightarrow> nat \<Rightarrow> nat \<Rightarrow> string \<Rightarrow> error + string" where
  "replace_at s pos len to =
     (if length s < pos then Inl OutOfRange else Inr (take pos s @ to @ drop (pos + len) s))"

text \<open>The lambda \<^verbatim>\<open>replace_all\<close>, from position \<open>pos\<close> on. It is only ever applied to the
  eight non-empty token literals; with an empty \<open>from\<close> the loop of the source would not
  advance, and the model stops there.\<close>

function replace_all :: "string \<Rightarrow> string \<Rightarrow> string \<Rightarrow> nat \<Rightarrow> error + string" where
  "replace_all s from to pos =
     (if from = [] then Inr s
      else
        (case find_str s from pos of
           None \<Rightarrow> Inr s
         | Some p \<Rightarrow>
             (case replace_at s p (length from) to of
                Inl e \<Rightarrow> Inl e
              | Inr s' \<Rightarrow> replace_all s' from to (p + length to))))"
  by pat_completeness auto
termination
proof (relation "measure (\<lambda>(s, from, to, pos). length s - pos)", goal_cases)
  case 1
  show ?case by simp
next
  case (2 s "from" to pos p s')
  have occ: "first_occurrence pat xs = Some i \<Longrightarrow> i + length pat \<le> length xs" for pat xs i
  proof (induction xs arbitrary: i)
    case Nil
    then show ?case by (simp split: if_splits)
  next
    case (Cons x xs)
    show ?case
    proof (cases "take (length pat) (x # xs) = pat")
      case True
      from arg_cong [OF True, of length] have "length pat \<le> length (x # xs)"
        by simp
      with True Cons.prems show ?thesis by simp
    next
      case False
      with Cons.prems obtain j where "first_occurrence pat xs = Some j" "i = Suc j"
        by auto
      with Cons.IH show ?thesis by fastforce
    qed
  qed
  from 2(2) have b: "pos \<le> p" "p + length from \<le> length s"
    by (auto simp: find_str_def split: if_splits dest!: occ)
  from 2(3) b have "s' = take p s @ to @ drop (p + length from) s"
    by (simp add: replace_at_def split: if_splits)
  with b 2(1) show ?case
    by (cases "from") auto
qed

declare replace_all.simps [simp del]

definition to_strptime :: "string \<Rightarrow> error + string" where
  "to_strptime adjusted_format =
     rbind (replace_all adjusted_format ''yyyy'' ''%Y'' 0) (\<lambda>s1.
     rbind (replace_all s1 ''yy'' ''%y'' 0) (\<lambda>s2.
     rbind (replace_all s2 ''MM'' ''%m'' 0) (\<lambda>s3.
     rbind (replace_all s3 ''dd'' ''%d'' 0) (\<lambda>s4.
     rbind (replace_all s4 ''hh'' ''%H'' 0) (\<lambda>s5.
     rbind (replace_all s5 ''HH'' ''%H'' 0) (\<lambda>s6.
     rbind (replace_all s6 ''mm'' ''%M'' 0) (\<lambda>s7.
     replace_all s7 ''ss'' ''%S'' 0)))))))"

text \<open>The block that handles \<^verbatim>\<open>.zzz\<close>: it yields the adjusted format, the fractional
  nanoseconds and the adjusted input. \<^verbatim>\<open>zzz_pos - 5\<close> is computed in \<^verbatim>\<open>size_t\<close>, a 64-bit
  word, and wraps around for \<open>zzz_pos < 5\<close>.\<close>

definition adjust_zzz :: "string \<Rightarrow> string \<Rightarrow> error + (string \<times> int \<times> string)" where
  "adjust_zzz fmt trimmed =
     (case find_str fmt ''.zzz'' 0 of
        None \<Rightarrow> Inr (fmt, 0, trimmed)
      | Some zzz_pos \<Rightarrow>
          (let z_start = zzz_pos + 1;
               z_count = count_z fmt z_start 0
           in case find_char trimmed CHR ''.''
                     (if 0 < zzz_pos then unat (word_of_nat zzz_pos - 5 :: 64 word) else 0) of
                None \<Rightarrow> Inr (fmt, 0, trimmed)
              | Some input_dot_pos \<Rightarrow>
                  rbind (ExtractFractionalSeconds trimmed) (\<lambda>(base, frac).
                  rbind (substr fmt 0 zzz_pos) (\<lambda>before.
                  rbind (substr_from fmt (z_start + z_count)) (\<lambda>after.
                  Inr (before @ after, frac, base))))))"

definition FormatParseTimestamp :: "prims \<Rightarrow> string \<Rightarrow> string \<Rightarrow> error + double option" where
  "FormatParseTimestamp P str fmt =
     rbind (Trim str) (\<lambda>trimmed.
       if trimmed = [] then Inr None
       else
         rbind (adjust_zzz fmt trimmed) (\<lambda>(adjusted_format, fractional_ns, adjusted_input).
         rbind (to_strptime adjusted_format) (\<lambda>strptime_format.
         Inr (TryParseFormat P adjusted_input (c_str strptime_format) fractional_ns))))"

subsection \<open>DetectColumnType\<close>

definition detect_slash :: "prims \<Rightarrow> string \<Rightarrow> string option" where
  "detect_slash P base_str =
     (if find_char base_str CHR ''/'' 0 \<noteq> None \<and> base_str \<noteq> [] \<and> base_str ! 0 \<noteq> CHR ''2''
      then (let fmt = (if IsDayFirstFormat base_str CHR ''/''
                       then ''%d/%m/%Y %H:%M:%S'' else ''%m/%d/%Y %H:%M:%S'')
            in if try_format P base_str fmt then Some fmt else None)
      else None)"

definition detect_dash :: "prims \<Rightarrow> string \<Rightarrow> string option" where
  "detect_dash P base_str =
     (if find_char base_str CHR ''-'' 0 \<noteq> None \<and> base_str \<noteq> [] \<and> base_str ! 0 \<noteq> CHR ''2''
      then (if IsDayFirstFormat base_str CHR ''-''
            then (if try_format P base_str ''%d-%m-%Y %H:%M:%S''
                  then Some ''%d-%m-%Y %H:%M:%S'' else None)
            else None)
      else None)"

definition detect_datetime :: "prims \<Rightarrow> ColumnTypeInfo \<Rightarrow> string \<Rightarrow> error + ColumnTypeInfo" where
  "detect_datetime P info trimmed =
     rbind (ExtractFractionalSeconds trimmed) (\<lambda>(base_str, fractional_ns).
       (let info1 = info\<lparr>has_fractional := (0 < fractional_ns \<or> trimmed \<noteq> base_str)\<rparr>
        in case first_format P base_str UNAMBIGUOUS_FORMATS of
             Some fmt \<Rightarrow> Inr (info1\<lparr>type := DATETIME, format := fmt\<rparr>)
           | None \<Rightarrow>
               (case detect_slash P base_str of
                  Some fmt \<Rightarrow> Inr (info1\<lparr>type := DATETIME, format := fmt\<rparr>)
                | None \<Rightarrow>
                    (case detect_dash P base_str of
                       Some fmt \<Rightarrow> Inr (info1\<lparr>type := DATETIME, format := fmt\<rparr>)
                     | None \<Rightarrow> Inr (info1\<lparr>type := STRING\<rparr>)))))"

text \<open>The numeric block: \<open>Some i\<close> is \<^verbatim>\<open>return info\<close> inside the \<^verbatim>\<open>try\<close>; \<open>None\<close> is the
  caught exception, after which the type is \<open>NUMBER\<close>.\<close>

definition detect_numeric :: "ColumnTypeInfo \<Rightarrow> string \<Rightarrow> NumericInfo \<Rightarrow> error + ColumnTypeInfo" where
  "detect_numeric info trimmed num_info =
     (if has_decimal num_info then Inr (info\<lparr>type := NUMBER\<rparr>)
      else
        rbind (try_catch (rbind (stoll 10 trimmed)
                            (\<lambda>ts. Inr (Some (info\<lparr>type := DetectEpochType ts\<rparr>))))
                         (Inr None)) (\<lambda>returned.
          case returned of
            Some i \<Rightarrow> Inr i
          | None \<Rightarrow> Inr (info\<lparr>type := NUMBER\<rparr>)))"

definition DetectColumnType :: "prims \<Rightarrow> string \<Rightarrow> error + ColumnTypeInfo" where
  "DetectColumnType P str =
     (let info = ColumnTypeInfo_default in
      rbind (Trim str) (\<lambda>trimmed.
        if trimmed = [] then Inr (info\<lparr>type := STRING\<rparr>)
        else if 2 < length trimmed \<and> trimmed ! 0 = CHR ''0''
                \<and> (trimmed ! 1 = CHR ''x'' \<or> trimmed ! 1 = CHR ''X'')
        then Inr (info\<lparr>type := HEX\<rparr>)
        else
          rbind (CheckNumeric trimmed) (\<lambda>num_info.
            if is_number num_info then detect_numeric info trimmed num_info
            else detect_datetime P info trimmed)))"

subsection \<open>ParseWithType\<close>

definition parse_datetime :: "prims \<Rightarrow> string \<Rightarrow> ColumnTypeInfo \<Rightarrow> error + double option" where
  "parse_datetime P trimmed type_info =
     rbind (ExtractFractionalSeconds trimmed) (\<lambda>(base_str, fractional_ns).
       Inr (TryParseFormat P base_str (c_str (format type_info))
              (if \<not> has_fractional type_info then 0 else fractional_ns)))"

definition ParseWithType :: "prims \<Rightarrow> string \<Rightarrow> ColumnTypeInfo \<Rightarrow> error + double option" where
  "ParseWithType P str type_info =
     rbind (Trim str) (\<lambda>trimmed.
       if trimmed = [] then Inr None
       else
         try_catch
           (case type type_info of
              NUMBER \<Rightarrow> Inr (toDouble P trimmed)
            | HEX \<Rightarrow> rbind (stoll 16 trimmed) (\<lambda>v. Inr (Some (Fin (double_of_int64 v))))
            | EPOCH_SECONDS \<Rightarrow> rbind (stoll 10 trimmed) (\<lambda>ts. Inr (Some (EpochToSeconds ts (type type_info))))
            | EPOCH_MILLIS \<Rightarrow> rbind (stoll 10 trimmed) (\<lambda>ts. Inr (Some (EpochToSeconds ts (type type_info))))
            | EPOCH_MICROS \<Rightarrow> rbind (stoll 10 trimmed) (\<lambda>ts. Inr (Some (EpochToSeconds ts (type type_info))))
            | EPOCH_NANOS \<Rightarrow> rbind (stoll 10 trimmed) (\<lambda>ts. Inr (Some (EpochToSeconds ts (type type_info))))
            | DATETIME \<Rightarrow> parse_datetime P trimmed type_info
            | STRING \<Rightarrow> Inr None)
           (Inr None))"

subsection \<open>An instance of the two primitives\<close>

text \<open>Modelled from the spec: the locale-independent double parser of section 6
  (\<^verbatim>\<open>ParseLocaleDouble(text) -> double option\<close>, with \<open>.\<close> as the only decimal separator); the
  sources call Qt's \<^verbatim>\<open>QLocale::c().toDouble\<close>, which is not among them. The instance reads
  a sign, digits with at most one point, and an exponent; the whole text has to be such a
  number, and the value is the nearest double. A value outside the range of the normal
  doubles is reported as a failure.\<close>

definition c_toDouble :: "string \<Rightarrow> double option" where
  "c_toDouble text =
     (let neg = (text \<noteq> [] \<and> hd text = CHR ''-'');
          s1 = (if text \<noteq> [] \<and> (hd text = CHR ''-'' \<or> hd text = CHR ''+'') then tl text else text);
          ip = takeWhile isdigit s1;
          r1 = dropWhile isdigit s1;
          fp = (if r1 \<noteq> [] \<and> hd r1 = CHR ''.'' then takeWhile isdigit (tl r1) else []);
          r2 = (if r1 \<noteq> [] \<and> hd r1 = CHR ''.'' then dropWhile isdigit (tl r1) else r1);
          has_exp = (r2 \<noteq> [] \<and> (hd r2 = CHR ''e'' \<or> hd r2 = CHR ''E''));
          r3 = (if has_exp then tl r2 else r2);
          eneg = (r3 \<noteq> [] \<and> hd r3 = CHR ''-'');
          ed = (if r3 \<noteq> [] \<and> (hd r3 = CHR ''-'' \<or> hd r3 = CHR ''+'') then tl r3 else r3);
          ev = (if has_exp then (if eneg then - digits_value 10 ed else digits_value 10 ed) else 0);
          m = (of_int (digits_value 10 (ip @ fp)) :: rat) * 10 powi (ev - int (length fp));
          v = round_double (if neg then - m else m)
      in if ip @ fp = [] \<or> (has_exp \<and> ed = []) \<or> \<not> list_all isdigit ed \<or> (\<not> has_exp \<and> r2 \<noteq> [])
         then None
         else if v \<noteq> 0 \<and> (\<bar>v\<bar> < 2 powi (- 1022) \<or> 2 powi 1024 \<le> \<bar>v\<bar>) then None
         else if v = 0 \<and> m \<noteq> 0 then None
         else Some (Fin v))"

text \<open>Modelled from the spec: the calendar parser primitive of section 6 ("given a pattern
  string and a base string, attempts to parse a broken-down date/time and report
  success/failure plus seconds-since-epoch", for the tokens of section 4.6); the sources call
  \<^verbatim>\<open>date::parse\<close> of a date library that is not among them. The instance reads the text
  from the left as the pattern directs: \<open>%Y\<close> one to four digits, \<open>%y\<close> (a year of this or
  the last century) \<open>%m\<close> \<open>%d\<close> \<open>%H\<close> \<open>%M\<close> \<open>%S\<close> one or two, \<open>%z\<close> a sign, two
  digits, a colon and two digits (the \<open>\<plusminus>hh:mm\<close> of section 4.6), any other character
  itself. It succeeds only if the pattern consumes the full text (section 4.6: "first pattern
  that consumes the full base string wins"), and it makes no calendar validation (section 1:
  it does not reject \<open>2023-02-30\<close>): the fields count as they are read.\<close>

record broken_down =
  bd_year :: "int option"
  bd_month :: "int option"
  bd_day :: "int option"
  bd_hour :: int
  bd_minute :: int
  bd_second :: int
  bd_offset :: int

definition read_digits :: "nat \<Rightarrow> string \<Rightarrow> (int \<times> string) option" where
  "read_digits w text =
     (let ds = takeWhile isdigit (take w text)
      in if ds = [] then None else Some (digits_value 10 ds, drop (length ds) text))"

definition read_zone :: "string \<Rightarrow> (int \<times> string) option" where
  "read_zone text =
     (if 6 \<le> length text \<and> (text ! 0 = CHR ''+'' \<or> text ! 0 = CHR ''-'')
         \<and> isdigit (text ! 1) \<and> isdigit (text ! 2) \<and> text ! 3 = CHR '':''
         \<and> isdigit (text ! 4) \<and> isdigit (text ! 5)
      then (let off = digits_value 10 (take 2 (drop 1 text)) * 3600
                      + digits_value 10 (take 2 (drop 4 text)) * 60
            in Some (if text ! 0 = CHR ''-'' then - off else off, drop 6 text))
      else None)"

definition read_directive :: "char \<Rightarrow> string \<Rightarrow> broken_down \<Rightarrow> (broken_down \<times> string) option" where
  "read_directive d text bd =
     (if d = CHR ''Y'' then map_option (\<lambda>(v, r). (bd\<lparr>bd_year := Some v\<rparr>, r)) (read_digits 4 text)
      else if d = CHR ''y'' then
        map_option (\<lambda>(v, r). (bd\<lparr>bd_year := Some (if v < 69 then 2000 + v else 1900 + v)\<rparr>, r))
          (read_digits 2 text)
      else if d = CHR ''m'' then map_option (\<lambda>(v, r). (bd\<lparr>bd_month := Some v\<rparr>, r)) (read_digits 2 text)
      else if d = CHR ''d'' then map_option (\<lambda>(v, r). (bd\<lparr>bd_day := Some v\<rparr>, r)) (read_digits 2 text)
      else if d = CHR ''H'' then map_option (\<lambda>(v, r). (bd\<lparr>bd_hour := v\<rparr>, r)) (read_digits 2 text)
      else if d = CHR ''M'' then map_option (\<lambda>(v, r). (bd\<lparr>bd_minute := v\<rparr>, r)) (read_digits 2 text)
      else if d = CHR ''S'' then map_option (\<lambda>(v, r). (bd\<lparr>bd_second := v\<rparr>, r)) (read_digits 2 text)
      else if d = CHR ''z'' then map_option (\<lambda>(v, r). (bd\<lparr>bd_offset := v\<rparr>, r)) (read_zone text)
      else None)"

fun read_pattern :: "string \<Rightarrow> string \<Rightarrow> broken_down \<Rightarrow> (broken_down \<times> string) option" where
  "read_pattern [] text bd = Some (bd, text)"
| "read_pattern [c] text bd =
     (if c = CHR ''%'' then None
      else if text \<noteq> [] \<and> hd text = c then Some (bd, tl text) else None)"
| "read_pattern (c # d # fmt) text bd =
     (if c = CHR ''%'' then
        (case read_directive d text bd of
           None \<Rightarrow> None
         | Some (bd', r) \<Rightarrow> read_pattern fmt r bd')
      else if text \<noteq> [] \<and> hd text = c then read_pattern (d # fmt) (tl text) bd else None)"

text \<open>The days from 1970-01-01 to a day of the civil calendar, linear in the day of the
  month, so that a day past the end of its month counts on into the next.\<close>

definition days_from_civil :: "int \<Rightarrow> int \<Rightarrow> int \<Rightarrow> int" where
  "days_from_civil y m d =
     (let y' = (if m \<le> 2 then y - 1 else y);
          era = y' div 400;
          yoe = y' - era * 400;
          doy = (153 * (if 2 < m then m - 3 else m + 9) + 2) div 5 + d - 1;
          doe = yoe * 365 + yoe div 4 - yoe div 100 + doy
      in era * 146097 + doe - 719468)"

definition calendar_parse :: "string \<Rightarrow> string \<Rightarrow> (int \<times> string) option" where
  "calendar_parse fmt text =
     (case read_pattern fmt text
             \<lparr>bd_year = None, bd_month = None, bd_day = None, bd_hour = 0, bd_minute = 0,
              bd_second = 0, bd_offset = 0\<rparr> of
        None \<Rightarrow> None
      | Some (bd, rest) \<Rightarrow>
          (case (bd_year bd, bd_month bd, bd_day bd) of
             (Some y, Some m, Some d) \<Rightarrow>
               if rest = []
               then Some (days_from_civil y m d * 86400 + bd_hour bd * 3600 + bd_minute bd * 60
                          + bd_second bd - bd_offset bd, rest)
               else None
           | _ \<Rightarrow> None))"

definition reference_prims :: prims where
  "reference_prims = \<lparr>locale_toDouble = c_toDouble, date_parse = calendar_parse\<rparr>"

subsection \<open>Notions the claims are stated with\<close>

text \<open>The two numeric fields \<^verbatim>\<open>IsDayFirstFormat\<close> is specified with: the number written by
  the leading run of digits, and the number written by the run of digits after it, one
  separator between them skipped when it is there. An empty run is 0.\<close>

definition first_field :: "string \<Rightarrow> int" where
  "first_field str = digits_value 10 (takeWhile isdigit str)"

definition second_field :: "string \<Rightarrow> char \<Rightarrow> int" where
  "second_field str separator =
     (let r = dropWhile isdigit str;
          r' = (if r \<noteq> [] \<and> hd r = separator then tl r else r)
      in digits_value 10 (takeWhile isdigit r'))"

text \<open>The test for a hexadecimal literal at the head of \<^verbatim>\<open>DetectColumnType\<close>.\<close>

definition hex_prefixed :: "string \<Rightarrow> bool" where
  "hex_prefixed t \<longleftrightarrow> 2 < length t \<and> t ! 0 = CHR ''0'' \<and> (t ! 1 = CHR ''x'' \<or> t ! 1 = CHR ''X'')"


text \<open>The round trip of section 8: detecting the type of a string and parsing the same
  string with that type gives what \<^verbatim>\<open>AutoParseTimestamp\<close> gives.\<close>

definition roundtrip :: "prims \<Rightarrow> string \<Rightarrow> bool" where
  "roundtrip P s \<longleftrightarrow>
     (case DetectColumnType P s of
        Inl e \<Rightarrow> False
      | Inr info \<Rightarrow> ParseWithType P s info = AutoParseTimestamp P s)"

text \<open>The \<open>DATETIME\<close> case of \<^verbatim>\<open>ParseWithType\<close> as section 4.8 words it: "re-run
  FractionalSecondSplitter only if \<open>has_fractional\<close> was recorded, then FormatMatcher with
  the stored format string". It is compared with \<open>parse_datetime\<close>, the case as the source
  has it.\<close>

definition parse_datetime_as_specified :: "prims \<Rightarrow> string \<Rightarrow> ColumnTypeInfo \<Rightarrow> error + double option" where
  "parse_datetime_as_specified P trimmed type_info =
     (if has_fractional type_info
      then rbind (ExtractFractionalSeconds trimmed) (\<lambda>(base_str, fractional_ns).
             Inr (TryParseFormat P base_str (c_str (format type_info)) fractional_ns))
      else Inr (TryParseFormat P trimmed (c_str (format type_info)) 0))"

section \<open>Basic facts about the model\<close>

subsection \<open>Results, substrings and Trim\<close>

lemma rbind_Inr [simp]: "rbind (Inr v) f = f v"
  by (simp add: rbind_def)

lemma rbind_Inl [simp]: "rbind (Inl e) f = Inl e"
  by (simp add: rbind_def)

lemma try_catch_Inr [simp]: "try_catch (Inr v) h = Inr v"
  by (simp add: try_catch_def)

lemma substr_ok: "pos \<le> length s \<Longrightarrow> substr s pos n = Inr (take n (drop pos s))"
  by (simp add: substr_def)

lemma substr_from_ok: "pos \<le> length s \<Longrightarrow> substr_from s pos = Inr (drop pos s)"
  by (simp add: substr_from_def)

lemma Trim_total: "\<exists>t. Trim s = Inr t"
proof (cases "find_first_not_of s trim_chars")
  case None
  then show ?thesis by (simp add: Trim_def)
next
  case (Some start)
  then have "start \<le> length s"
    by (auto simp: find_first_not_of_def Let_def length_takeWhile_le split: if_splits)
  then show ?thesis
    using Some by (simp add: Trim_def substr_ok split: option.splits)
qed

lemma Trim_blank:
  assumes "set s \<subseteq> set trim_chars"
  shows "Trim s = Inr []"
proof -
  from assms have tw: "takeWhile (\<lambda>c. c \<in> set trim_chars) s = s"
    by (simp add: subset_iff)
  have "find_first_not_of s trim_chars = None"
    by (simp only: find_first_not_of_def Let_def tw simp_thms if_True)
  then show ?thesis
    by (simp add: Trim_def)
qed

lemma skip_digits_eq:
  "pos \<le> length s \<Longrightarrow> skip_digits s pos = pos + length (takeWhile isdigit (drop pos s))"
proof (induction s pos rule: skip_digits.induct)
  case (1 input frac_end)
  show ?case
  proof (cases "frac_end < length input \<and> isdigit (input ! frac_end)")
    case True
    then have d: "drop frac_end input = input ! frac_end # drop (Suc frac_end) input"
      by (simp add: Cons_nth_drop_Suc)
    from True have "skip_digits input frac_end = skip_digits input (frac_end + 1)"
      by (subst skip_digits.simps) simp
    also have "\<dots> = frac_end + 1 + length (takeWhile isdigit (drop (frac_end + 1) input))"
      using 1 True by simp
    finally show ?thesis
      using True by (simp add: d)
  next
    case False
    then have s: "skip_digits input frac_end = frac_end"
      by (subst skip_digits.simps) (simp only: if_False)
    show ?thesis
    proof (cases "frac_end < length input")
      case True
      then have "drop frac_end input = input ! frac_end # drop (Suc frac_end) input"
        by (simp add: Cons_nth_drop_Suc)
      with False True s show ?thesis by simp
    next
      case False
      with s show ?thesis by simp
    qed
  qed
qed

lemma rfind_char_bound: "rfind_char s c = Some p \<Longrightarrow> p < length s"
  using length_takeWhile_le [of "\<lambda>x. x \<noteq> c" "rev s"]
  by (auto simp: rfind_char_def Let_def split: if_splits)

lemma isdigit_digit_in_base: "isdigit c \<Longrightarrow> digit_in_base 10 c = Some (nat (digit_value c))"
  by (auto simp: isdigit_def digit_in_base_def digit_value_def)

lemma isdigit_digit_value: "isdigit c \<Longrightarrow> 0 \<le> digit_value c \<and> digit_value c \<le> 9"
  by (auto simp: isdigit_def digit_value_def)

lemma digits_value_snoc:
  "digits_value b (ds @ [c]) = digits_value b ds * int b + int (case digit_in_base b c of None \<Rightarrow> 0 | Some d \<Rightarrow> d)"
  by (simp add: digits_value_def)

lemma digits_value_bounds:
  "list_all isdigit ds \<Longrightarrow> 0 \<le> digits_value 10 ds \<and> digits_value 10 ds < 10 ^ length ds"
proof (induction ds rule: rev_induct)
  case Nil
  then show ?case by (simp add: digits_value_def)
next
  case (snoc c ds)
  then have ih: "0 \<le> digits_value 10 ds" "digits_value 10 ds < 10 ^ length ds" and c: "isdigit c"
    by simp_all
  from c have v: "digit_in_base 10 c = Some (nat (digit_value c))" and r: "0 \<le> digit_value c" "digit_value c \<le> 9"
    by (simp_all add: isdigit_digit_in_base isdigit_digit_value)
  from ih(2) have "digits_value 10 ds + 1 \<le> 10 ^ length ds" by simp
  then have "(digits_value 10 ds + 1) * 10 \<le> 10 ^ length ds * 10" by simp
  with ih r show ?case
    by (simp add: digits_value_snoc v algebra_simps)
qed

lemma isdigit_not_isspace: "isdigit c \<Longrightarrow> \<not> isspace c"
  by (auto simp: isdigit_def isspace_def)

lemma stoll_digits:
  assumes "list_all isdigit ds" "ds \<noteq> []" "length ds \<le> 18"
  shows "stoll 10 ds = Inr (digits_value 10 ds)"
proof -
  obtain c cs where ds: "ds = c # cs" using assms(2) by (cases ds) auto
  with assms(1) have c: "isdigit c" by simp
  then have sp: "dropWhile isspace ds = ds" by (simp add: ds isdigit_not_isspace)
  from c have sg: "hd ds \<noteq> CHR ''-''" "hd ds \<noteq> CHR ''+''"
    by (auto simp: ds isdigit_def)
  have tw: "takeWhile (\<lambda>c. digit_in_base 10 c \<noteq> None) ds = ds"
    using assms(1) by (auto simp: takeWhile_eq_all_conv list_all_iff isdigit_digit_in_base)
  have "digits_value 10 ds < 10 ^ length ds" "0 \<le> digits_value 10 ds"
    using digits_value_bounds [OF assms(1)] by simp_all
  moreover have "(10::int) ^ length ds \<le> 10 ^ 18"
    using assms(3) by (intro power_increasing) simp_all
  ultimately have "digits_value 10 ds \<le> 2 ^ 63 - 1" "- (2 ^ 63) \<le> digits_value 10 ds"
    by simp_all
  then show ?thesis
    using assms(2) by (simp add: stoll_def sp sg tw Let_def del: not_None_eq)
qed


lemma isdigit_zero: "isdigit CHR ''0''"
  by (simp add: isdigit_def)

lemma pad9_cases:
  "(if length run < 9 then Inr (run @ replicate (9 - length run) CHR ''0'')
    else if 9 < length run then substr run 0 9 else Inr run)
   = (Inr (take 9 (run @ replicate 9 CHR ''0'')) :: error + string)"
  by (auto simp: substr_def min_def)

lemma pad9_digits:
  assumes "list_all isdigit run"
  shows "list_all isdigit (take 9 (run @ replicate 9 CHR ''0''))"
    and "length (take 9 (run @ replicate 9 CHR ''0'')) = 9"
proof -
  have "list_all isdigit (run @ replicate 9 CHR ''0'')"
    using assms by (simp add: list_all_iff isdigit_zero)
  then show "list_all isdigit (take 9 (run @ replicate 9 CHR ''0''))"
    by (auto simp: list_all_iff dest: in_set_takeD)
  show "length (take 9 (run @ replicate 9 CHR ''0'')) = 9"
    by simp
qed

lemma stoll_pad9:
  assumes "list_all isdigit run"
  shows "stoll 10 (take 9 (run @ replicate 9 CHR ''0'')) = Inr (digits_value 10 (take 9 (run @ replicate 9 CHR ''0'')))"
proof -
  have "take 9 (run @ replicate 9 CHR ''0'') \<noteq> []"
    using pad9_digits(2) [OF assms] by (metis length_0_conv zero_neq_numeral)
  then show ?thesis
    using pad9_digits [OF assms] by (intro stoll_digits) simp_all
qed

lemma Extract_split:
  assumes d: "rfind_char s CHR ''.'' = Some d"
    and c: "rfind_char s CHR '':'' = Some c"
    and cd: "c < d"
    and run: "run = takeWhile isdigit (drop (d + 1) s)"
    and ne: "run \<noteq> []"
  shows "ExtractFractionalSeconds s =
           Inr (take d s @ drop (d + 1 + length run) s,
                digits_value 10 (take 9 (run @ replicate 9 CHR ''0'')))"
proof -
  have dl: "d + 1 \<le> length s"
    using rfind_char_bound [OF d] by simp
  have fe: "skip_digits s (d + 1) = d + 1 + length run"
    using skip_digits_eq [OF dl] by (simp add: run)
  have rl: "d + 1 + length run \<le> length s"
    using length_takeWhile_le [of isdigit "drop (d + 1) s"] dl by (simp add: run)
  have tk: "take (length run) (drop (d + 1) s) = run"
    unfolding run by (rule takeWhile_eq_take [symmetric])
  have dig: "list_all isdigit run"
    unfolding run list_all_iff by (auto dest: set_takeWhileD)
  have s1: "substr s (d + 1) (d + 1 + length run - (d + 1)) = Inr run"
    using dl tk by (simp add: substr_def)
  have s2: "substr s 0 d = Inr (take d s)"
    by (simp add: substr_ok)
  have s3: "substr_from s (d + 1 + length run) = Inr (drop (d + 1 + length run) s)"
    using rl by (simp add: substr_from_ok)
  have lt: "\<not> d + 1 + length run \<le> d + 1"
    using ne by simp
  have nle: "\<not> d \<le> c"
    using cd by simp
  show ?thesis
    unfolding ExtractFractionalSeconds_def d c option.case Let_def fe
    by (simp only: s1 s2 s3 lt nle if_False rbind_Inr pad9_cases stoll_pad9 [OF dig] try_catch_Inr)
qed

lemma Extract_unchanged:
  assumes "rfind_char s CHR ''.'' = None \<or> rfind_char s CHR '':'' = None
           \<or> (\<exists>d c. rfind_char s CHR ''.'' = Some d \<and> rfind_char s CHR '':'' = Some c
                \<and> (d \<le> c \<or> takeWhile isdigit (drop (d + 1) s) = []))"
  shows "ExtractFractionalSeconds s = Inr (s, 0)"
proof -
  have "ExtractFractionalSeconds s = Inr (s, 0)"
    if d: "rfind_char s CHR ''.'' = Some d" and c: "rfind_char s CHR '':'' = Some c"
      and e: "takeWhile isdigit (drop (d + 1) s) = []" for d c
  proof -
    have dl: "d + 1 \<le> length s"
      using rfind_char_bound [OF d] by simp
    have fe: "skip_digits s (d + 1) = d + 1"
      using skip_digits_eq [OF dl] e by simp
    show ?thesis
      unfolding ExtractFractionalSeconds_def d c option.case Let_def fe by simp
  qed
  then show ?thesis
    using assms by (auto simp: ExtractFractionalSeconds_def split: option.splits)
qed

lemma Extract_total:
  "\<exists>b n. ExtractFractionalSeconds s = Inr (b, n) \<and> 0 \<le> n \<and> n \<le> 999999999"
proof (cases "\<exists>d c. rfind_char s CHR ''.'' = Some d \<and> rfind_char s CHR '':'' = Some c \<and> c < d
                \<and> takeWhile isdigit (drop (d + 1) s) \<noteq> []")
  case True
  then obtain d c where h: "rfind_char s CHR ''.'' = Some d" "rfind_char s CHR '':'' = Some c" "c < d"
      "takeWhile isdigit (drop (d + 1) s) \<noteq> []"
    by blast
  define run where "run = takeWhile isdigit (drop (d + 1) s)"
  have dig: "list_all isdigit run"
    unfolding run_def list_all_iff by (auto dest: set_takeWhileD)
  from digits_value_bounds [OF pad9_digits(1) [OF dig]] pad9_digits(2) [OF dig]
  have "0 \<le> digits_value 10 (take 9 (run @ replicate 9 CHR ''0''))"
    "digits_value 10 (take 9 (run @ replicate 9 CHR ''0'')) < 10 ^ 9"
    by simp_all
  then show ?thesis
    using Extract_split [OF h(1,2,3) run_def] h(4) by (simp add: run_def)
next
  case False
  then have "ExtractFractionalSeconds s = Inr (s, 0)"
    by (intro Extract_unchanged) (cases "rfind_char s CHR ''.''"; cases "rfind_char s CHR '':''"; fastforce)
  then show ?thesis by simp
qed

subsection \<open>Doubles and the epoch windows\<close>

lemma round_half_even_of_int: "round_half_even (of_int m) = m"
  by (simp add: round_half_even_def)

lemma binade_of_int_le:
  assumes "\<bar>t\<bar> < 2 ^ 53"
  shows "binade (of_int t) \<le> 52"
proof -
  have q: "quotient_of \<bar>of_int t :: rat\<bar> = (\<bar>t\<bar>, 1)"
    unfolding of_int_abs [symmetric] by (rule quotient_of_rat_of_int)
  have b1: "bitlen 1 = 1"
    by (simp add: bitlen_alt_def)
  have "bitlen \<bar>t\<bar> \<le> 53"
    using assms by (simp add: bitlen_le_iff_power)
  then show ?thesis
    by (simp add: binade_def q b1 Let_def)
qed

lemma round_double_of_int_exact:
  assumes "\<bar>t\<bar> < 2 ^ 53"
  shows "round_double (of_int t) = of_int t"
proof (cases "t = 0")
  case True
  then show ?thesis by (simp add: round_double_def)
next
  case False
  define k where "k = nat (52 - binade (of_int t))"
  define u :: rat where "u = 2 powi (binade (of_int t) - 52)"
  have k: "binade (of_int t) - 52 = - int k"
    using binade_of_int_le [OF assms] by (simp add: k_def)
  have u: "u = 1 / 2 ^ k"
    by (simp add: u_def k power_int_minus divide_inverse)
  have q: "(of_int t :: rat) / u = of_int (t * 2 ^ k)"
    by (simp add: u)
  have "round_double (of_int t) = of_int (round_half_even (of_int t / u)) * u"
    using False by (simp add: round_double_def u_def Let_def)
  also have "\<dots> = of_int (t * 2 ^ k) * u"
    by (simp only: q round_half_even_of_int)
  also have "\<dots> = of_int t"
    by (simp add: u)
  finally show ?thesis .
qed

lemma epoch_bounds:
  "EPOCH_FIRST * 1000000000 = 1400000000000000000" "EPOCH_LAST * 1000000000 = 2000000000000000000"
  "EPOCH_FIRST * 1000000 = 1400000000000000" "EPOCH_LAST * 1000000 = 2000000000000000"
  "EPOCH_FIRST * 1000 = 1400000000000" "EPOCH_LAST * 1000 = 2000000000000"
  by (simp_all add: EPOCH_FIRST_def EPOCH_LAST_def)

lemma DetectEpochType_chain:
  "DetectEpochType t =
     (if 1400000000000000000 < t \<and> t < 2000000000000000000 then EPOCH_NANOS
      else if 1400000000000000 < t \<and> t < 2000000000000000 then EPOCH_MICROS
      else if 1400000000000 < t \<and> t < 2000000000000 then EPOCH_MILLIS
      else if 1400000000 < t \<and> t < 2000000000 then EPOCH_SECONDS
      else NUMBER)"
  unfolding DetectEpochType_def epoch_bounds
  by (simp only: EPOCH_FIRST_def EPOCH_LAST_def)

lemma DetectEpochType_seconds:
  assumes "1400000000 < t" "t < 2000000000"
  shows "DetectEpochType t = EPOCH_SECONDS"
proof -
  have "\<not> 1400000000000000000 < t" "\<not> 1400000000000000 < t" "\<not> 1400000000000 < t"
    using assms(2) by linarith+
  then show ?thesis
    using assms by (simp only: DetectEpochType_chain simp_thms if_False if_True)
qed

subsection \<open>IsDayFirstFormat\<close>

lemma read_field_eq:
  "pos \<le> length str \<Longrightarrow>
   read_field str pos acc =
     (foldl (\<lambda>a c. a * 10 + word_of_int (digit_value c)) acc (takeWhile isdigit (drop pos str)),
      pos + length (takeWhile isdigit (drop pos str)))"
proof (induction str pos acc rule: read_field.induct)
  case (1 str pos acc)
  show ?case
  proof (cases "pos < length str \<and> isdigit (str ! pos)")
    case True
    then have d: "drop pos str = str ! pos # drop (Suc pos) str"
      by (simp add: Cons_nth_drop_Suc)
    from True have "read_field str pos acc
        = read_field str (pos + 1) (acc * 10 + word_of_int (digit_value (str ! pos)))"
      by (subst read_field.simps) simp
    also have "\<dots> = (foldl (\<lambda>a c. a * 10 + word_of_int (digit_value c))
                        (acc * 10 + word_of_int (digit_value (str ! pos)))
                        (takeWhile isdigit (drop (pos + 1) str)),
                     pos + 1 + length (takeWhile isdigit (drop (pos + 1) str)))"
      using 1 True by simp
    finally show ?thesis
      using True by (simp add: d)
  next
    case False
    then have s: "read_field str pos acc = (acc, pos)"
      by (subst read_field.simps) (simp only: if_False)
    show ?thesis
    proof (cases "pos < length str")
      case True
      then have "drop pos str = str ! pos # drop (Suc pos) str"
        by (simp add: Cons_nth_drop_Suc)
      with False True s show ?thesis by simp
    next
      case False
      with s show ?thesis by simp
    qed
  qed
qed

lemma word_foldl_digits:
  "list_all isdigit ds \<Longrightarrow>
   foldl (\<lambda>a c. a * 10 + word_of_int (digit_value c)) (word_of_int a0 :: 32 word) ds
   = word_of_int (foldl (\<lambda>acc c. acc * int 10
        + int (case digit_in_base 10 c of None \<Rightarrow> 0 | Some d \<Rightarrow> d)) a0 ds)"
proof (induction ds arbitrary: a0)
  case Nil
  show ?case by simp
next
  case (Cons c ds)
  then have c: "isdigit c" and ds: "list_all isdigit ds"
    by simp_all
  have v: "int (case digit_in_base 10 c of None \<Rightarrow> 0 | Some d \<Rightarrow> d) = digit_value c"
    using isdigit_digit_value [OF c] by (simp add: isdigit_digit_in_base [OF c])
  have "(word_of_int a0 :: 32 word) * 10 + word_of_int (digit_value c)
        = word_of_int (a0 * int 10 + digit_value c)"
    by simp
  then show ?case
    using Cons.IH [OF ds, of "a0 * int 10 + digit_value c"] by (simp add: v)
qed

lemma read_field_value:
  assumes "pos \<le> length str"
  shows "read_field str pos 0 =
           (word_of_int (digits_value 10 (takeWhile isdigit (drop pos str))),
            pos + length (takeWhile isdigit (drop pos str)))"
proof -
  have "list_all isdigit (takeWhile isdigit (drop pos str))"
    unfolding list_all_iff by (auto dest: set_takeWhileD)
  from word_foldl_digits [OF this, of 0] show ?thesis
    by (simp add: read_field_eq [OF assms] digits_value_def)
qed

lemma sint_small:
  "0 \<le> v \<Longrightarrow> v < 2 ^ 31 \<Longrightarrow> sint (word_of_int v :: 32 word) = v"
  by (simp add: sint_sbintrunc' signed_take_bit_int_eq_self)

lemma IsDayFirstFormat_fields:
  "IsDayFirstFormat str separator =
     (if 12 < sint (word_of_int (first_field str) :: 32 word)
          \<and> sint (word_of_int (first_field str) :: 32 word) \<le> 31 then True
      else if 12 < sint (word_of_int (second_field str separator) :: 32 word)
          \<and> sint (word_of_int (second_field str separator) :: 32 word) \<le> 31 then False
      else True)"
proof -
  define n where "n = length (takeWhile isdigit str)"
  have n: "n \<le> length str"
    by (simp add: n_def length_takeWhile_le)
  have r: "dropWhile isdigit str = drop n str"
    by (simp add: n_def dropWhile_eq_drop)
  have f: "read_field str 0 0 = (word_of_int (first_field str), n)"
    using read_field_value [of 0 str] by (simp add: first_field_def n_def)
  define pos2 where "pos2 = (if n < length str \<and> str ! n = separator then n + 1 else n)"
  have p2: "pos2 \<le> length str"
    using n by (simp add: pos2_def)
  have sep: "(drop n str \<noteq> [] \<and> hd (drop n str) = separator) = (n < length str \<and> str ! n = separator)"
    by (auto simp: hd_drop_conv_nth)
  have d2: "(if drop n str \<noteq> [] \<and> hd (drop n str) = separator then tl (drop n str) else drop n str)
            = drop pos2 str"
    unfolding sep pos2_def by (simp add: drop_Suc tl_drop)
  have s: "read_field str pos2 0
           = (word_of_int (second_field str separator),
              pos2 + length (takeWhile isdigit (drop pos2 str)))"
    unfolding second_field_def Let_def r d2 by (rule read_field_value [OF p2])
  show ?thesis
    unfolding IsDayFirstFormat_def f prod.case Let_def pos2_def [symmetric] s
    by (rule refl)
qed

lemma IsDayFirstFormat_by_fields:
  assumes "first_field str < 2 ^ 31" "second_field str separator < 2 ^ 31"
  shows "IsDayFirstFormat str separator =
     (if 12 < first_field str \<and> first_field str \<le> 31 then True
      else if 12 < second_field str separator \<and> second_field str separator \<le> 31 then False
      else True)"
proof -
  have "list_all isdigit (takeWhile isdigit xs)" for xs
    unfolding list_all_iff by (auto dest: set_takeWhileD)
  then have "0 \<le> first_field str" "0 \<le> second_field str separator"
    using digits_value_bounds by (simp_all add: first_field_def second_field_def Let_def)
  with assms show ?thesis
    by (simp only: IsDayFirstFormat_fields sint_small)
qed

subsection \<open>The entry points\<close>

lemma stoll_not_OutOfBounds: "stoll b s \<noteq> Inl OutOfBounds"
  by (simp add: stoll_def Let_def)

lemma try_catch_Inl: "e \<noteq> OutOfBounds \<Longrightarrow> try_catch (Inl e) h = h"
  by (simp add: try_catch_def)

lemma try_catch_stoll:
  "try_catch (rbind (stoll b s) (\<lambda>v. Inr (f v))) (Inr h)
   = Inr (case stoll b s of Inl e \<Rightarrow> h | Inr v \<Rightarrow> f v)"
proof (cases "stoll b s")
  case (Inl e)
  with stoll_not_OutOfBounds [of b s] have "e \<noteq> OutOfBounds"
    by auto
  with Inl show ?thesis
    by (simp add: try_catch_Inl)
next
  case (Inr v)
  then show ?thesis by simp
qed

lemma CheckNumeric_scan_Nil: "CheckNumeric_scan [] 0 info dg = (info, dg)"
  by (subst CheckNumeric_scan.simps) simp

lemma CheckNumeric_Nil: "CheckNumeric [] = Inl OutOfBounds"
  by (simp add: CheckNumeric_def CheckNumeric_scan_Nil)

lemma CheckNumeric_total: "str \<noteq> [] \<Longrightarrow> \<exists>info. CheckNumeric str = Inr info"
  by (simp add: CheckNumeric_def split: prod.splits)

lemma CheckNumeric_Inl_iff: "CheckNumeric str = Inl e \<longleftrightarrow> str = [] \<and> e = OutOfBounds"
proof (cases "str = []")
  case True
  then show ?thesis by (auto simp: CheckNumeric_Nil)
next
  case False
  with CheckNumeric_total [OF False] show ?thesis by auto
qed

lemma TryParseFormat_None_iff: "TryParseFormat P b f n = None \<longleftrightarrow> date_parse P f b = None"
  by (simp add: TryParseFormat_def Let_def split: option.splits)

lemma try_formats_find:
  "try_formats P b n fs =
     (case find (\<lambda>f. date_parse P f b \<noteq> None) fs of
        None \<Rightarrow> None
      | Some f \<Rightarrow> TryParseFormat P b f n)"
proof (induction fs)
  case Nil
  show ?case by simp
next
  case (Cons f fs)
  show ?case
  proof (cases "date_parse P f b")
    case None
    then have "TryParseFormat P b f n = None"
      by (simp add: TryParseFormat_None_iff)
    with None Cons show ?thesis by simp
  next
    case (Some r)
    then obtain v where "TryParseFormat P b f n = Some v"
      using TryParseFormat_None_iff [of P b f n] by (cases "TryParseFormat P b f n") auto
    with Some show ?thesis by simp
  qed
qed

lemma first_format_find:
  "first_format P b fs = find (\<lambda>f. date_parse P f b \<noteq> None) fs"
  by (induction fs) (simp_all add: try_format_def)

lemma auto_numeric_total: "\<exists>r. auto_numeric P t ni = Inr r"
  by (simp add: auto_numeric_def try_catch_stoll)

lemma auto_datetime_eq:
  assumes "ExtractFractionalSeconds t = Inr (b, n)"
  shows "auto_datetime P t =
     Inr (case try_formats P b n UNAMBIGUOUS_FORMATS of
            Some r \<Rightarrow> Some r
          | None \<Rightarrow> (case auto_slash P b n of Some r \<Rightarrow> Some r | None \<Rightarrow> auto_dash P b n))"
  by (simp add: auto_datetime_def assms split: option.splits)

lemma auto_datetime_total: "\<exists>r. auto_datetime P t = Inr r"
  using Extract_total [of t] auto_datetime_eq by blast

lemma AutoParseTimestamp_eq:
  assumes "Trim s = Inr t" "t \<noteq> []" "CheckNumeric t = Inr ni"
  shows "AutoParseTimestamp P s =
     rbind (auto_numeric P t ni) (\<lambda>returned.
       case returned of Some result \<Rightarrow> Inr result | None \<Rightarrow> auto_datetime P t)"
  by (simp add: AutoParseTimestamp_def assms)

lemma AutoParseTimestamp_blank: "Trim s = Inr [] \<Longrightarrow> AutoParseTimestamp P s = Inr None"
  by (simp add: AutoParseTimestamp_def)

lemma AutoParseTimestamp_total: "\<exists>r. AutoParseTimestamp P s = Inr r"
proof -
  obtain t where t: "Trim s = Inr t"
    using Trim_total by blast
  show ?thesis
  proof (cases "t = []")
    case True
    with t show ?thesis by (simp add: AutoParseTimestamp_blank)
  next
    case False
    then obtain ni where ni: "CheckNumeric t = Inr ni"
      using CheckNumeric_total by blast
    obtain r where r: "auto_numeric P t ni = Inr r"
      using auto_numeric_total by blast
    obtain d where d: "auto_datetime P t = Inr d"
      using auto_datetime_total by blast
    show ?thesis
      by (cases r) (simp_all add: AutoParseTimestamp_eq [OF t False ni] r d)
  qed
qed

lemma detect_numeric_eq:
  "detect_numeric info t ni =
     Inr (if has_decimal ni then info\<lparr>type := NUMBER\<rparr>
          else (case stoll 10 t of
                  Inl e \<Rightarrow> info\<lparr>type := NUMBER\<rparr>
                | Inr ts \<Rightarrow> info\<lparr>type := DetectEpochType ts\<rparr>))"
  by (simp add: detect_numeric_def try_catch_stoll split: sum.splits)

lemma detect_datetime_eq:
  assumes "ExtractFractionalSeconds t = Inr (b, n)"
  shows "detect_datetime P info t =
     Inr (case (case first_format P b UNAMBIGUOUS_FORMATS of
                  Some f \<Rightarrow> Some f
                | None \<Rightarrow> (case detect_slash P b of Some f \<Rightarrow> Some f | None \<Rightarrow> detect_dash P b)) of
            Some f \<Rightarrow> info\<lparr>has_fractional := (0 < n \<or> t \<noteq> b), type := DATETIME, format := f\<rparr>
          | None \<Rightarrow> info\<lparr>has_fractional := (0 < n \<or> t \<noteq> b), type := STRING\<rparr>)"
  by (simp add: detect_datetime_def assms Let_def split: option.splits)

lemma DetectColumnType_eq:
  assumes "Trim s = Inr t" "t \<noteq> []" "\<not> hex_prefixed t" "CheckNumeric t = Inr ni"
  shows "DetectColumnType P s =
     (if is_number ni then detect_numeric ColumnTypeInfo_default t ni
      else detect_datetime P ColumnTypeInfo_default t)"
  using assms by (auto simp: DetectColumnType_def hex_prefixed_def Let_def)

lemma DetectColumnType_blank:
  "Trim s = Inr [] \<Longrightarrow> DetectColumnType P s = Inr (ColumnTypeInfo_default\<lparr>type := STRING\<rparr>)"
  by (simp add: DetectColumnType_def Let_def)

lemma DetectColumnType_hex:
  "Trim s = Inr t \<Longrightarrow> hex_prefixed t \<Longrightarrow> DetectColumnType P s = Inr (ColumnTypeInfo_default\<lparr>type := HEX\<rparr>)"
  by (auto simp: DetectColumnType_def hex_prefixed_def Let_def)

lemma DetectColumnType_total: "\<exists>info. DetectColumnType P s = Inr info"
proof -
  obtain t where t: "Trim s = Inr t"
    using Trim_total by blast
  consider "t = []" | "t \<noteq> []" "hex_prefixed t" | "t \<noteq> []" "\<not> hex_prefixed t"
    by blast
  then show ?thesis
  proof cases
    case 1
    with t show ?thesis by (simp add: DetectColumnType_blank)
  next
    case 2
    with t show ?thesis by (simp add: DetectColumnType_hex)
  next
    case 3
    then obtain ni where ni: "CheckNumeric t = Inr ni"
      using CheckNumeric_total by blast
    obtain b n where bn: "ExtractFractionalSeconds t = Inr (b, n)"
      using Extract_total by blast
    show ?thesis
      by (simp add: DetectColumnType_eq [OF t 3 ni] detect_numeric_eq detect_datetime_eq [OF bn])
  qed
qed

lemma parse_datetime_eq:
  assumes "ExtractFractionalSeconds t = Inr (b, n)"
  shows "parse_datetime P t ti =
           Inr (TryParseFormat P b (c_str (format ti)) (if has_fractional ti then n else 0))"
  by (simp add: parse_datetime_def assms)

lemma ParseWithType_blank: "Trim s = Inr [] \<Longrightarrow> ParseWithType P s ti = Inr None"
  by (simp add: ParseWithType_def)

lemma ParseWithType_eq:
  assumes "Trim s = Inr t" "t \<noteq> []" "ExtractFractionalSeconds t = Inr (b, n)"
  shows "ParseWithType P s ti =
     Inr (case type ti of
            NUMBER \<Rightarrow> toDouble P t
          | HEX \<Rightarrow> (case stoll 16 t of Inl e \<Rightarrow> None | Inr v \<Rightarrow> Some (Fin (double_of_int64 v)))
          | DATETIME \<Rightarrow> TryParseFormat P b (c_str (format ti)) (if has_fractional ti then n else 0)
          | STRING \<Rightarrow> None
          | _ \<Rightarrow> (case stoll 10 t of Inl e \<Rightarrow> None | Inr ts \<Rightarrow> Some (EpochToSeconds ts (type ti))))"
proof -
  have h: "try_catch (rbind (stoll k t) (\<lambda>v. Inr (Some (g v)))) (Inr None)
           = Inr (case stoll k t of Inl e \<Rightarrow> None | Inr v \<Rightarrow> Some (g v))" for k and g :: "int \<Rightarrow> double"
    by (simp add: try_catch_stoll split: sum.splits)
  show ?thesis
    by (cases "type ti")
      (simp_all add: ParseWithType_def assms h parse_datetime_eq [OF assms(3)] split: sum.splits)
qed

lemma ParseWithType_total: "\<exists>r. ParseWithType P s ti = Inr r"
proof -
  obtain t where t: "Trim s = Inr t"
    using Trim_total by blast
  obtain b n where bn: "ExtractFractionalSeconds t = Inr (b, n)"
    using Extract_total by blast
  show ?thesis
  proof (cases "t = []")
    case True
    with t show ?thesis by (simp add: ParseWithType_blank)
  next
    case False
    show ?thesis
      by (simp add: ParseWithType_eq [OF t False bn])
  qed
qed

subsection \<open>FormatParseTimestamp\<close>

lemma first_occurrence_bound:
  "first_occurrence pat xs = Some i \<Longrightarrow> i + length pat \<le> length xs"
proof (induction xs arbitrary: i)
  case Nil
  then show ?case by (simp split: if_splits)
next
  case (Cons x xs)
  show ?case
  proof (cases "take (length pat) (x # xs) = pat")
    case True
    from arg_cong [OF True, of length] have "length pat \<le> length (x # xs)"
      by simp
    with True Cons.prems show ?thesis by simp
  next
    case False
    with Cons.prems obtain j where "first_occurrence pat xs = Some j" "i = Suc j"
      by auto
    with Cons.IH show ?thesis by fastforce
  qed
qed

lemma find_str_bound:
  "find_str s pat pos = Some p \<Longrightarrow> pos \<le> p \<and> p + length pat \<le> length s"
  by (auto simp: find_str_def split: if_splits dest!: first_occurrence_bound)

lemma count_z_bound:
  "z_start + z_count \<le> length fmt \<Longrightarrow> z_start + count_z fmt z_start z_count \<le> length fmt"
proof (induction fmt z_start z_count rule: count_z.induct)
  case (1 fmt z_start z_count)
  show ?case
  proof (cases "z_start + z_count < length fmt \<and> fmt ! (z_start + z_count) = CHR ''z''")
    case True
    then have "count_z fmt z_start z_count = count_z fmt z_start (z_count + 1)"
      by (subst count_z.simps) simp
    with 1 True show ?thesis by simp
  next
    case False
    then have "count_z fmt z_start z_count = z_count"
      by (subst count_z.simps) (simp only: if_False)
    with 1 show ?thesis by simp
  qed
qed

lemma replace_all_total: "\<exists>r. replace_all s from to pos = Inr r"
proof (induction s "from" to pos rule: replace_all.induct)
  case (1 s "from" to pos)
  show ?case
  proof (cases "from = []")
    case True
    then show ?thesis by (subst replace_all.simps) simp
  next
    case False
    show ?thesis
    proof (cases "find_str s from pos")
      case None
      with False show ?thesis by (subst replace_all.simps) simp
    next
      case (Some p)
      then have "p \<le> length s"
        using find_str_bound by fastforce
      then have r: "replace_at s p (length from) to = Inr (take p s @ to @ drop (p + length from) s)"
        by (simp add: replace_at_def)
      from 1 [OF False Some r] False Some r show ?thesis
        by (subst replace_all.simps) simp
    qed
  qed
qed

lemma to_strptime_total: "\<exists>r. to_strptime f = Inr r"
proof -
  obtain s1 where s1: "replace_all f ''yyyy'' ''%Y'' 0 = Inr s1" using replace_all_total by blast
  obtain s2 where s2: "replace_all s1 ''yy'' ''%y'' 0 = Inr s2" using replace_all_total by blast
  obtain s3 where s3: "replace_all s2 ''MM'' ''%m'' 0 = Inr s3" using replace_all_total by blast
  obtain s4 where s4: "replace_all s3 ''dd'' ''%d'' 0 = Inr s4" using replace_all_total by blast
  obtain s5 where s5: "replace_all s4 ''hh'' ''%H'' 0 = Inr s5" using replace_all_total by blast
  obtain s6 where s6: "replace_all s5 ''HH'' ''%H'' 0 = Inr s6" using replace_all_total by blast
  obtain s7 where s7: "replace_all s6 ''mm'' ''%M'' 0 = Inr s7" using replace_all_total by blast
  obtain s8 where s8: "replace_all s7 ''ss'' ''%S'' 0 = Inr s8" using replace_all_total by blast
  show ?thesis
    by (simp add: to_strptime_def s1 s2 s3 s4 s5 s6 s7 s8)
qed

lemma adjust_zzz_total: "\<exists>r. adjust_zzz fmt t = Inr r"
proof (cases "find_str fmt ''.zzz'' 0")
  case None
  then show ?thesis by (simp add: adjust_zzz_def)
next
  case (Some zzz_pos)
  then have b: "zzz_pos + 4 \<le> length fmt"
    using find_str_bound [of fmt "''.zzz''" 0 zzz_pos] by simp
  then have "zzz_pos + 1 + 0 \<le> length fmt"
    by simp
  from count_z_bound [OF this] have c: "zzz_pos + 1 + count_z fmt (zzz_pos + 1) 0 \<le> length fmt" .
  obtain base frac where e: "ExtractFractionalSeconds t = Inr (base, frac)"
    using Extract_total by blast
  have s1: "substr fmt 0 zzz_pos = Inr (take zzz_pos fmt)"
    by (simp add: substr_ok)
  have s2: "substr_from fmt (zzz_pos + 1 + count_z fmt (zzz_pos + 1) 0)
            = Inr (drop (zzz_pos + 1 + count_z fmt (zzz_pos + 1) 0) fmt)"
    using c by (rule substr_from_ok)
  show ?thesis
    unfolding adjust_zzz_def Some option.case Let_def
    by (cases "find_char t CHR ''.'' (if 0 < zzz_pos then unat (word_of_nat zzz_pos - 5 :: 64 word) else 0)")
      (simp_all only: option.case e rbind_Inr prod.case s1 s2, blast+)
qed

lemma FormatParseTimestamp_blank: "Trim s = Inr [] \<Longrightarrow> FormatParseTimestamp P s fmt = Inr None"
  by (simp add: FormatParseTimestamp_def)

lemma FormatParseTimestamp_total: "\<exists>r. FormatParseTimestamp P s fmt = Inr r"
proof -
  obtain t where t: "Trim s = Inr t"
    using Trim_total by blast
  show ?thesis
  proof (cases "t = []")
    case True
    with t show ?thesis by (simp add: FormatParseTimestamp_blank)
  next
    case False
    obtain af ns ai where a: "adjust_zzz fmt t = Inr (af, ns, ai)"
      using adjust_zzz_total by (metis prod_cases3)
    obtain sf where sf: "to_strptime af = Inr sf"
      using to_strptime_total by blast
    show ?thesis
      by (simp add: FormatParseTimestamp_def t False a sf)
  qed
qed

lemma ParseWithType_failure:
  assumes t: "Trim s = Inr t" "t \<noteq> []"
  shows "type ti = HEX \<Longrightarrow> stoll 16 t = Inl e \<Longrightarrow> ParseWithType P s ti = Inr None"
    and "type ti \<in> {EPOCH_SECONDS, EPOCH_MILLIS, EPOCH_MICROS, EPOCH_NANOS} \<Longrightarrow> stoll 10 t = Inl e
          \<Longrightarrow> ParseWithType P s ti = Inr None"
    and "type ti = NUMBER \<Longrightarrow> toDouble P t = None \<Longrightarrow> ParseWithType P s ti = Inr None"
proof -
  obtain b n where bn: "ExtractFractionalSeconds t = Inr (b, n)"
    using Extract_total by blast
  note eq = ParseWithType_eq [OF t bn, of P ti]
  show "type ti = HEX \<Longrightarrow> stoll 16 t = Inl e \<Longrightarrow> ParseWithType P s ti = Inr None"
    by (simp add: eq)
  show "type ti \<in> {EPOCH_SECONDS, EPOCH_MILLIS, EPOCH_MICROS, EPOCH_NANOS} \<Longrightarrow> stoll 10 t = Inl e
          \<Longrightarrow> ParseWithType P s ti = Inr None"
    by (auto simp: eq)
  show "type ti = NUMBER \<Longrightarrow> toDouble P t = None \<Longrightarrow> ParseWithType P s ti = Inr None"
    by (simp add: eq)
qed

subsection \<open>The datetime path and the round trip\<close>

lemma find_char_iff: "find_char b c 0 \<noteq> None \<longleftrightarrow> c \<in> set b"
proof -
  have "length (takeWhile (\<lambda>x. x \<noteq> c) b) < length b \<longleftrightarrow> c \<in> set b"
    using length_takeWhile_le [of "\<lambda>x. x \<noteq> c" b] takeWhile_eq_all_conv [of "\<lambda>x. x \<noteq> c" b]
      takeWhile_eq_take [of "\<lambda>x. x \<noteq> c" b]
    by (metis (mono_tags, lifting) le_neq_implies_less less_irrefl_nat take_all_iff order_refl)
  then show ?thesis
    by (cases b) (auto simp: find_char_def Let_def)
qed

lemma c_str_formats:
  "f \<in> set UNAMBIGUOUS_FORMATS \<Longrightarrow> c_str f = f"
  "c_str ''%d/%m/%Y %H:%M:%S'' = ''%d/%m/%Y %H:%M:%S''"
  "c_str ''%m/%d/%Y %H:%M:%S'' = ''%m/%d/%Y %H:%M:%S''"
  "c_str ''%d-%m-%Y %H:%M:%S'' = ''%d-%m-%Y %H:%M:%S''"
  by (auto simp: UNAMBIGUOUS_FORMATS_def c_str_def)

lemma find_Some_mem: "find Q xs = Some x \<Longrightarrow> x \<in> set xs \<and> Q x"
  by (auto simp: find_Some_iff)

lemma detect_slash_auto:
  "detect_slash P b = None \<Longrightarrow> auto_slash P b n = None"
  "detect_slash P b = Some f \<Longrightarrow> auto_slash P b n = TryParseFormat P b f n \<and> c_str f = f"
  by (auto simp: detect_slash_def auto_slash_def try_format_def TryParseFormat_None_iff Let_def
      c_str_formats simp del: not_None_eq split: if_splits)

lemma detect_dash_auto:
  "detect_dash P b = None \<Longrightarrow> auto_dash P b n = None"
  "detect_dash P b = Some f \<Longrightarrow> auto_dash P b n = TryParseFormat P b f n \<and> c_str f = f"
  by (auto simp: detect_dash_def auto_dash_def try_format_def TryParseFormat_None_iff
      c_str_formats simp del: not_None_eq split: if_splits)

lemma TryParseFormat_Some: "date_parse P f b \<noteq> None \<Longrightarrow> \<exists>v. TryParseFormat P b f n = Some v"
  using TryParseFormat_None_iff [of P b f n] by (cases "TryParseFormat P b f n") auto

lemma roundtrip_datetime:
  assumes t: "Trim s = Inr t" "t \<noteq> []" and h: "\<not> hex_prefixed t"
    and ni: "CheckNumeric t = Inr ni" "\<not> is_number ni"
  shows "roundtrip P s"
proof -
  obtain b n where bn: "ExtractFractionalSeconds t = Inr (b, n)" and n0: "0 \<le> n"
    using Extract_total by blast
  define hf where "hf = (0 < n \<or> t \<noteq> b)"
  have nn: "(if hf then n else 0) = n"
    using n0 by (auto simp: hf_def)
  have an: "auto_numeric P t ni = Inr None"
    using ni(2) by (simp add: auto_numeric_def)
  have A: "AutoParseTimestamp P s = auto_datetime P t"
    by (simp add: AutoParseTimestamp_eq [OF t ni(1)] an)
  have D: "DetectColumnType P s = detect_datetime P ColumnTypeInfo_default t"
    using ni(2) by (simp add: DetectColumnType_eq [OF t h ni(1)])
  have pw: "ParseWithType P s (ColumnTypeInfo_default\<lparr>has_fractional := hf, type := DATETIME, format := f\<rparr>)
            = Inr (TryParseFormat P b f n)" if "c_str f = f" for f
    by (simp add: ParseWithType_eq [OF t bn] that nn)
  have ps: "ParseWithType P s (ColumnTypeInfo_default\<lparr>has_fractional := hf, type := STRING\<rparr>) = Inr None"
    by (simp add: ParseWithType_eq [OF t bn])
  show ?thesis
  proof (cases "find (\<lambda>f. date_parse P f b \<noteq> None) UNAMBIGUOUS_FORMATS")
    case (Some f)
    then have f: "f \<in> set UNAMBIGUOUS_FORMATS" "date_parse P f b \<noteq> None"
      by (auto dest: find_Some_mem)
    obtain v where v: "TryParseFormat P b f n = Some v"
      using TryParseFormat_Some [OF f(2)] by blast
    show ?thesis
      unfolding roundtrip_def D A
      by (simp add: detect_datetime_eq [OF bn] auto_datetime_eq [OF bn] first_format_find
          try_formats_find Some v hf_def [symmetric] pw [OF c_str_formats(1) [OF f(1)]] del: not_None_eq)
  next
    case None
    show ?thesis
    proof (cases "detect_slash P b")
      case (Some f)
      from detect_slash_auto(2) [OF Some, of n] have a: "auto_slash P b n = TryParseFormat P b f n" "c_str f = f"
        by simp_all
      have "date_parse P f b \<noteq> None"
        using Some by (auto simp: detect_slash_def try_format_def Let_def split: if_splits)
      then obtain v where v: "TryParseFormat P b f n = Some v"
        using TryParseFormat_Some by blast
      show ?thesis
        unfolding roundtrip_def D A
        by (simp add: detect_datetime_eq [OF bn] auto_datetime_eq [OF bn] first_format_find
            try_formats_find None Some a(1) v hf_def [symmetric] pw [OF a(2)] del: not_None_eq)
    next
      case sn: None
      note as = detect_slash_auto(1) [OF sn, of n]
      show ?thesis
      proof (cases "detect_dash P b")
        case (Some f)
        from detect_dash_auto(2) [OF Some, of n] have a: "auto_dash P b n = TryParseFormat P b f n" "c_str f = f"
          by simp_all
        show ?thesis
          unfolding roundtrip_def D A
          by (simp add: detect_datetime_eq [OF bn] auto_datetime_eq [OF bn] first_format_find
              try_formats_find None sn as Some a(1) hf_def [symmetric] pw [OF a(2)] del: not_None_eq)
      next
        case dn: None
        note ad = detect_dash_auto(1) [OF dn, of n]
        show ?thesis
          unfolding roundtrip_def D A
          by (simp add: detect_datetime_eq [OF bn] auto_datetime_eq [OF bn] first_format_find
              try_formats_find None sn as dn ad hf_def [symmetric] ps del: not_None_eq)
      qed
    qed
  qed
qed

lemma datetime_path:
  assumes t: "Trim s = Inr t" "t \<noteq> []" and ni: "CheckNumeric t = Inr ni"
    and bn: "ExtractFractionalSeconds t = Inr (b, n)"
  shows "auto_numeric P t ni = Inr None \<Longrightarrow>
         AutoParseTimestamp P s =
           Inr (case find (\<lambda>f. date_parse P f b \<noteq> None) UNAMBIGUOUS_FORMATS of
                  Some f \<Rightarrow> TryParseFormat P b f n
                | None \<Rightarrow> (case auto_slash P b n of Some r \<Rightarrow> Some r | None \<Rightarrow> auto_dash P b n))"
    and "\<not> hex_prefixed t \<Longrightarrow> \<not> is_number ni \<Longrightarrow>
         DetectColumnType P s =
           Inr (case (case find (\<lambda>f. date_parse P f b \<noteq> None) UNAMBIGUOUS_FORMATS of
                        Some f \<Rightarrow> Some f
                      | None \<Rightarrow> (case detect_slash P b of Some f \<Rightarrow> Some f | None \<Rightarrow> detect_dash P b)) of
                  Some f \<Rightarrow> \<lparr>type = DATETIME, format = f, has_fractional = (0 < n \<or> t \<noteq> b)\<rparr>
                | None \<Rightarrow> \<lparr>type = STRING, format = [], has_fractional = (0 < n \<or> t \<noteq> b)\<rparr>)"
proof -
  show "AutoParseTimestamp P s =
           Inr (case find (\<lambda>f. date_parse P f b \<noteq> None) UNAMBIGUOUS_FORMATS of
                  Some f \<Rightarrow> TryParseFormat P b f n
                | None \<Rightarrow> (case auto_slash P b n of Some r \<Rightarrow> Some r | None \<Rightarrow> auto_dash P b n))"
    if an: "auto_numeric P t ni = Inr None"
  proof (cases "find (\<lambda>f. date_parse P f b \<noteq> None) UNAMBIGUOUS_FORMATS")
    case None
    then show ?thesis
      by (simp add: AutoParseTimestamp_eq [OF t ni] an auto_datetime_eq [OF bn] try_formats_find
          del: not_None_eq)
  next
    case (Some f)
    then have "date_parse P f b \<noteq> None"
      by (auto dest: find_Some_mem)
    then obtain v where "TryParseFormat P b f n = Some v"
      using TryParseFormat_Some by blast
    with Some show ?thesis
      by (simp add: AutoParseTimestamp_eq [OF t ni] an auto_datetime_eq [OF bn] try_formats_find
          del: not_None_eq)
  qed
  show "DetectColumnType P s =
           Inr (case (case find (\<lambda>f. date_parse P f b \<noteq> None) UNAMBIGUOUS_FORMATS of
                        Some f \<Rightarrow> Some f
                      | None \<Rightarrow> (case detect_slash P b of Some f \<Rightarrow> Some f | None \<Rightarrow> detect_dash P b)) of
                  Some f \<Rightarrow> \<lparr>type = DATETIME, format = f, has_fractional = (0 < n \<or> t \<noteq> b)\<rparr>
                | None \<Rightarrow> \<lparr>type = STRING, format = [], has_fractional = (0 < n \<or> t \<noteq> b)\<rparr>)"
    if "\<not> hex_prefixed t" "\<not> is_number ni"
    using that
    by (simp add: DetectColumnType_eq [OF t that(1) ni] detect_datetime_eq [OF bn] first_format_find
        ColumnTypeInfo_default_def del: not_None_eq split: option.splits)
qed

lemma dash_only:
  assumes "CHR ''-'' \<in> set b" "CHR ''/'' \<notin> set b" "b ! 0 \<noteq> CHR ''2''"
  shows "auto_slash P b n = None" "detect_slash P b = None"
    "auto_dash P b n = (if IsDayFirstFormat b CHR ''-'' then TryParseFormat P b ''%d-%m-%Y %H:%M:%S'' n else None)"
    "detect_dash P b = (if IsDayFirstFormat b CHR ''-'' \<and> date_parse P ''%d-%m-%Y %H:%M:%S'' b \<noteq> None
                        then Some ''%d-%m-%Y %H:%M:%S'' else None)"
proof -
  have s: "find_char b CHR ''/'' 0 = None"
    using assms(2) find_char_iff [of b "CHR ''/''"] by simp
  have d: "find_char b CHR ''-'' 0 \<noteq> None" "b \<noteq> []"
    using assms(1) find_char_iff [of b "CHR ''-''"] by auto
  show "auto_slash P b n = None" "detect_slash P b = None"
    by (simp_all add: auto_slash_def detect_slash_def s)
  show "auto_dash P b n = (if IsDayFirstFormat b CHR ''-'' then TryParseFormat P b ''%d-%m-%Y %H:%M:%S'' n else None)"
    using d assms(3) by (simp add: auto_dash_def del: not_None_eq)
  show "detect_dash P b = (if IsDayFirstFormat b CHR ''-'' \<and> date_parse P ''%d-%m-%Y %H:%M:%S'' b \<noteq> None
                        then Some ''%d-%m-%Y %H:%M:%S'' else None)"
    using d assms(3) by (simp add: detect_dash_def try_format_def del: not_None_eq)
qed


section \<open>The claims\<close>

text \<open>C1, as the code has it: for each of the strings \<open>42\<close>, \<open>3.14\<close>, \<open>1718000000\<close>,
  \<open>2024-01-15T10:30:00\<close> and \<open>not a date\<close>, \<open>DetectColumnType\<close> and then \<open>ParseWithType\<close>
  with the returned information give what \<open>AutoParseTimestamp\<close> gives directly (for \<open>42\<close>
  provided the number primitive reads \<open>42\<close> as the double 42, which the detecting path parses
  with the primitive and the direct path converts from the integer). The same holds for
  every string that is neither a hexadecimal literal nor numeric. For \<open>0x1F\<close> the detected
  type is \<open>HEX\<close> and \<open>ParseWithType\<close> gives 31, while \<open>AutoParseTimestamp\<close> has no rule for
  hexadecimal literals and gives what the datetime patterns give.\<close>

theorem roundtrip_canonical:
  "(locale_toDouble P ''42'' = Some (Fin 42) \<longrightarrow> roundtrip P ''42'')
   \<and> roundtrip P ''3.14'' \<and> roundtrip P ''1718000000''
   \<and> roundtrip P ''2024-01-15T10:30:00'' \<and> roundtrip P ''not a date''
   \<and> (\<forall>t ni. Trim s = Inr t \<and> t \<noteq> [] \<and> \<not> hex_prefixed t \<and> CheckNumeric t = Inr ni \<and> \<not> is_number ni
         \<longrightarrow> roundtrip P s)
   \<and> DetectColumnType P ''0x1F'' = Inr \<lparr>type = HEX, format = [], has_fractional = False\<rparr>
   \<and> ParseWithType P ''0x1F'' \<lparr>type = HEX, format = [], has_fractional = False\<rparr> = Inr (Some (Fin 31))
   \<and> AutoParseTimestamp P ''0x1F'' = auto_datetime P ''0x1F''"
proof (intro conjI impI allI)
  have ex: "\<exists>b n. ExtractFractionalSeconds t = Inr (b, n)" for t
    using Extract_total by blast
  have n42: "Trim ''42'' = Inr ''42''" "\<not> hex_prefixed ''42''" "stoll 10 ''42'' = Inr 42"
    "CheckNumeric ''42'' = Inr \<lparr>is_number = True, has_decimal = False, has_exponent = False\<rparr>"
    "DetectEpochType 42 = NUMBER" "EpochToSeconds 42 NUMBER = Fin 42"
    by code_simp+
  obtain b42 m42 where e42: "ExtractFractionalSeconds ''42'' = Inr (b42, m42)"
    using ex by blast
  have d42: "DetectColumnType P ''42'' = Inr (ColumnTypeInfo_default\<lparr>type := NUMBER\<rparr>)"
    by (simp add: DetectColumnType_eq [OF n42(1) _ n42(2) n42(4)] detect_numeric_eq n42)
  have a42: "AutoParseTimestamp P ''42'' = Inr (Some (Fin 42))"
    by (simp add: AutoParseTimestamp_eq [OF n42(1) _ n42(4)] auto_numeric_def n42)
  have p42: "ParseWithType P ''42'' (ColumnTypeInfo_default\<lparr>type := NUMBER\<rparr>) = Inr (locale_toDouble P ''42'')"
    by (simp add: ParseWithType_eq [OF n42(1) _ e42] toDouble_def)
  show "roundtrip P ''42''" if "locale_toDouble P ''42'' = Some (Fin 42)"
    by (simp add: roundtrip_def d42 a42 p42 that)
  have n3: "Trim ''3.14'' = Inr ''3.14''" "\<not> hex_prefixed ''3.14''"
    "CheckNumeric ''3.14'' = Inr \<lparr>is_number = True, has_decimal = True, has_exponent = False\<rparr>"
    by code_simp+
  obtain b3 m3 where e3: "ExtractFractionalSeconds ''3.14'' = Inr (b3, m3)"
    using ex by blast
  have d3: "DetectColumnType P ''3.14'' = Inr (ColumnTypeInfo_default\<lparr>type := NUMBER\<rparr>)"
    by (simp add: DetectColumnType_eq [OF n3(1) _ n3(2) n3(3)] detect_numeric_eq)
  have a3: "AutoParseTimestamp P ''3.14'' = Inr (toDouble P ''3.14'')"
    by (simp add: AutoParseTimestamp_eq [OF n3(1) _ n3(3)] auto_numeric_def)
  have p3: "ParseWithType P ''3.14'' (ColumnTypeInfo_default\<lparr>type := NUMBER\<rparr>) = Inr (toDouble P ''3.14'')"
    by (simp add: ParseWithType_eq [OF n3(1) _ e3])
  show "roundtrip P ''3.14''"
    by (simp add: roundtrip_def d3 a3 p3)
  have n1: "Trim ''1718000000'' = Inr ''1718000000''" "\<not> hex_prefixed ''1718000000''"
    "stoll 10 ''1718000000'' = Inr 1718000000"
    "CheckNumeric ''1718000000'' = Inr \<lparr>is_number = True, has_decimal = False, has_exponent = False\<rparr>"
    "DetectEpochType 1718000000 = EPOCH_SECONDS"
    by code_simp+
  obtain b1 m1 where e1: "ExtractFractionalSeconds ''1718000000'' = Inr (b1, m1)"
    using ex by blast
  have d1: "DetectColumnType P ''1718000000'' = Inr (ColumnTypeInfo_default\<lparr>type := EPOCH_SECONDS\<rparr>)"
    by (simp add: DetectColumnType_eq [OF n1(1) _ n1(2) n1(4)] detect_numeric_eq n1)
  have a1: "AutoParseTimestamp P ''1718000000'' = Inr (Some (EpochToSeconds 1718000000 EPOCH_SECONDS))"
    by (simp add: AutoParseTimestamp_eq [OF n1(1) _ n1(4)] auto_numeric_def n1)
  have p1: "ParseWithType P ''1718000000'' (ColumnTypeInfo_default\<lparr>type := EPOCH_SECONDS\<rparr>)
            = Inr (Some (EpochToSeconds 1718000000 EPOCH_SECONDS))"
    by (simp add: ParseWithType_eq [OF n1(1) _ e1] n1)
  show "roundtrip P ''1718000000''"
    by (simp add: roundtrip_def d1 a1 p1)
  have nd: "Trim ''2024-01-15T10:30:00'' = Inr ''2024-01-15T10:30:00''" "\<not> hex_prefixed ''2024-01-15T10:30:00''"
    "CheckNumeric ''2024-01-15T10:30:00'' = Inr \<lparr>is_number = False, has_decimal = False, has_exponent = False\<rparr>"
    by code_simp+
  show "roundtrip P ''2024-01-15T10:30:00''"
    by (rule roundtrip_datetime [OF nd(1) _ nd(2) nd(3)]) simp_all
  have nn: "Trim ''not a date'' = Inr ''not a date''" "\<not> hex_prefixed ''not a date''"
    "CheckNumeric ''not a date'' = Inr \<lparr>is_number = False, has_decimal = False, has_exponent = False\<rparr>"
    by code_simp+
  show "roundtrip P ''not a date''"
    by (rule roundtrip_datetime [OF nn(1) _ nn(2) nn(3)]) simp_all
  show "roundtrip P s"
    if "Trim s = Inr t \<and> t \<noteq> [] \<and> \<not> hex_prefixed t \<and> CheckNumeric t = Inr ni \<and> \<not> is_number ni" for t ni
    using that by (intro roundtrip_datetime [of s t ni]) simp_all
  have nh: "Trim ''0x1F'' = Inr ''0x1F''" "hex_prefixed ''0x1F''" "stoll 16 ''0x1F'' = Inr 31"
    "CheckNumeric ''0x1F'' = Inr \<lparr>is_number = False, has_decimal = False, has_exponent = False\<rparr>"
    "double_of_int64 31 = 31"
    by code_simp+
  obtain bh mh where eh: "ExtractFractionalSeconds ''0x1F'' = Inr (bh, mh)"
    using ex by blast
  show "DetectColumnType P ''0x1F'' = Inr \<lparr>type = HEX, format = [], has_fractional = False\<rparr>"
    by (simp add: DetectColumnType_hex [OF nh(1) nh(2)] ColumnTypeInfo_default_def)
  show "ParseWithType P ''0x1F'' \<lparr>type = HEX, format = [], has_fractional = False\<rparr> = Inr (Some (Fin 31))"
    by (simp add: ParseWithType_eq [OF nh(1) _ eh] nh)
  show "AutoParseTimestamp P ''0x1F'' = auto_datetime P ''0x1F''"
    by (simp add: AutoParseTimestamp_eq [OF nh(1) _ nh(4)] auto_numeric_def)
qed

theorem roundtrip_canonical_witness:
  "locale_toDouble reference_prims ''42'' = Some (Fin 42) \<and> roundtrip reference_prims ''42''
   \<and> Trim '' 15/01/2024 10:30:00 '' = Inr ''15/01/2024 10:30:00''
   \<and> \<not> hex_prefixed ''15/01/2024 10:30:00''
   \<and> CheckNumeric ''15/01/2024 10:30:00'' = Inr \<lparr>is_number = False, has_decimal = False, has_exponent = False\<rparr>
   \<and> roundtrip reference_prims '' 15/01/2024 10:30:00 ''
   \<and> AutoParseTimestamp reference_prims '' 15/01/2024 10:30:00 '' = Inr (Some (Fin 1705314600))"
proof -
  have v: "locale_toDouble reference_prims ''42'' = Some (Fin 42)"
    "Trim '' 15/01/2024 10:30:00 '' = Inr ''15/01/2024 10:30:00''"
    "\<not> hex_prefixed ''15/01/2024 10:30:00''"
    "CheckNumeric ''15/01/2024 10:30:00'' = Inr \<lparr>is_number = False, has_decimal = False, has_exponent = False\<rparr>"
    "AutoParseTimestamp reference_prims '' 15/01/2024 10:30:00 '' = Inr (Some (Fin 1705314600))"
    by code_simp+
  note a = roundtrip_canonical [of reference_prims, THEN conjunct1, THEN mp, OF v(1)]
  have h: "Trim '' 15/01/2024 10:30:00 '' = Inr ''15/01/2024 10:30:00'' \<and> ''15/01/2024 10:30:00'' \<noteq> []
      \<and> \<not> hex_prefixed ''15/01/2024 10:30:00''
      \<and> CheckNumeric ''15/01/2024 10:30:00'' = Inr \<lparr>is_number = False, has_decimal = False, has_exponent = False\<rparr>
      \<and> \<not> is_number \<lparr>is_number = False, has_decimal = False, has_exponent = False\<rparr>"
    using v by simp
  note b = roundtrip_canonical [of reference_prims "'' 15/01/2024 10:30:00 ''", THEN conjunct2, THEN conjunct2,
      THEN conjunct2, THEN conjunct2, THEN conjunct2, THEN conjunct1, THEN spec, THEN spec, THEN mp, OF h]
  show ?thesis
    by (intro conjI v a b)
qed

text \<open>C1 as stated fails at \<open>0x1F\<close>: the detected type is \<open>HEX\<close>, \<open>ParseWithType\<close> gives
  31, and \<open>AutoParseTimestamp\<close> gives no value.\<close>

theorem roundtrip_hex_counterexample:
  "DetectColumnType reference_prims ''0x1F'' = Inr \<lparr>type = HEX, format = [], has_fractional = False\<rparr>
   \<and> ParseWithType reference_prims ''0x1F'' \<lparr>type = HEX, format = [], has_fractional = False\<rparr>
       = Inr (Some (Fin 31))
   \<and> AutoParseTimestamp reference_prims ''0x1F'' = Inr None
   \<and> \<not> roundtrip reference_prims ''0x1F''"
  by code_simp

text \<open>C2, at the input \<open>1700000000e3\<close>: \<open>CheckNumeric\<close> classifies it as a number with an
  exponent and without a decimal point; \<open>DetectColumnType\<close> tests the decimal point only,
  runs the epoch classifier on the integer \<^verbatim>\<open>std::stoll\<close> reads from the front and returns
  \<open>EPOCH_SECONDS\<close>, not \<open>NUMBER\<close>. \<open>AutoParseTimestamp\<close> tests the exponent too and parses
  the same string as a plain number.\<close>

theorem DetectColumnType_exponent_epoch:
  "CheckNumeric ''1700000000e3'' = Inr \<lparr>is_number = True, has_decimal = False, has_exponent = True\<rparr>
   \<and> DetectColumnType P ''1700000000e3'' = Inr \<lparr>type = EPOCH_SECONDS, format = [], has_fractional = False\<rparr>
   \<and> AutoParseTimestamp P ''1700000000e3'' = Inr (toDouble P ''1700000000e3'')"
proof -
  have t: "Trim ''1700000000e3'' = Inr ''1700000000e3''"
    by code_simp
  have c: "CheckNumeric ''1700000000e3'' = Inr \<lparr>is_number = True, has_decimal = False, has_exponent = True\<rparr>"
    by code_simp
  have h: "\<not> hex_prefixed ''1700000000e3''"
    by code_simp
  have s: "stoll 10 ''1700000000e3'' = Inr 1700000000"
    by code_simp
  have e: "DetectEpochType 1700000000 = EPOCH_SECONDS"
    by code_simp
  have d: "DetectColumnType P ''1700000000e3'' = Inr \<lparr>type = EPOCH_SECONDS, format = [], has_fractional = False\<rparr>"
    by (simp add: DetectColumnType_eq [OF t _ h c] detect_numeric_eq s e ColumnTypeInfo_default_def)
  have a: "AutoParseTimestamp P ''1700000000e3'' = Inr (toDouble P ''1700000000e3'')"
    by (simp add: AutoParseTimestamp_eq [OF t _ c] auto_numeric_def)
  show ?thesis
    by (intro conjI c d a)
qed

theorem DetectColumnType_exponent_epoch_witness:
  "DetectColumnType reference_prims ''1700000000e3''
     = Inr \<lparr>type = EPOCH_SECONDS, format = [], has_fractional = False\<rparr>
   \<and> AutoParseTimestamp reference_prims ''1700000000e3'' = Inr (Some (Fin 1700000000000))"
proof -
  have v: "toDouble reference_prims ''1700000000e3'' = Some (Fin 1700000000000)"
    by code_simp
  note t = DetectColumnType_exponent_epoch [of reference_prims, THEN conjunct2]
  from t [THEN conjunct2] have a: "AutoParseTimestamp reference_prims ''1700000000e3'' = Inr (Some (Fin 1700000000000))"
    by (simp only: v)
  show ?thesis
    by (intro conjI t [THEN conjunct1] a)
qed

text \<open>C3, as the code has it: for a base string that contains \<open>-\<close> and no \<open>/\<close>, does not
  begin with \<open>2\<close> and matches none of the unambiguous patterns, \<open>AutoParseTimestamp\<close> and
  \<open>DetectColumnType\<close> try the day-first pattern \<open>%d-%m-%Y %H:%M:%S\<close> when \<open>IsDayFirstFormat\<close>
  returns true, and try no pattern at all when it returns false: the result is then no value,
  and the type \<open>STRING\<close>.\<close>

theorem dash_dates_day_first_only:
  "(\<forall>t ni b n. Trim s = Inr t \<and> t \<noteq> [] \<and> CheckNumeric t = Inr ni \<and> auto_numeric P t ni = Inr None
        \<and> ExtractFractionalSeconds t = Inr (b, n)
        \<and> find (\<lambda>f. date_parse P f b \<noteq> None) UNAMBIGUOUS_FORMATS = None
        \<and> CHR ''-'' \<in> set b \<and> CHR ''/'' \<notin> set b \<and> b ! 0 \<noteq> CHR ''2'' \<longrightarrow>
      AutoParseTimestamp P s =
        Inr (if IsDayFirstFormat b CHR ''-'' then TryParseFormat P b ''%d-%m-%Y %H:%M:%S'' n else None))
   \<and> (\<forall>t ni b n. Trim s = Inr t \<and> t \<noteq> [] \<and> \<not> hex_prefixed t \<and> CheckNumeric t = Inr ni \<and> \<not> is_number ni
        \<and> ExtractFractionalSeconds t = Inr (b, n)
        \<and> find (\<lambda>f. date_parse P f b \<noteq> None) UNAMBIGUOUS_FORMATS = None
        \<and> CHR ''-'' \<in> set b \<and> CHR ''/'' \<notin> set b \<and> b ! 0 \<noteq> CHR ''2'' \<longrightarrow>
      DetectColumnType P s =
        Inr (if IsDayFirstFormat b CHR ''-'' \<and> date_parse P ''%d-%m-%Y %H:%M:%S'' b \<noteq> None
             then \<lparr>type = DATETIME, format = ''%d-%m-%Y %H:%M:%S'', has_fractional = (0 < n \<or> t \<noteq> b)\<rparr>
             else \<lparr>type = STRING, format = [], has_fractional = (0 < n \<or> t \<noteq> b)\<rparr>))"
proof (intro conjI allI impI)
  fix t ni b n
  assume h: "Trim s = Inr t \<and> t \<noteq> [] \<and> CheckNumeric t = Inr ni \<and> auto_numeric P t ni = Inr None
        \<and> ExtractFractionalSeconds t = Inr (b, n)
        \<and> find (\<lambda>f. date_parse P f b \<noteq> None) UNAMBIGUOUS_FORMATS = None
        \<and> CHR ''-'' \<in> set b \<and> CHR ''/'' \<notin> set b \<and> b ! 0 \<noteq> CHR ''2''"
  then have an: "auto_numeric P t ni = Inr None"
    by simp
  from h have p: "Trim s = Inr t" "t \<noteq> []" "CheckNumeric t = Inr ni" "ExtractFractionalSeconds t = Inr (b, n)"
    and f: "find (\<lambda>f. date_parse P f b \<noteq> None) UNAMBIGUOUS_FORMATS = None"
    and c: "CHR ''-'' \<in> set b" "CHR ''/'' \<notin> set b" "b ! 0 \<noteq> CHR ''2''"
    by simp_all
  show "AutoParseTimestamp P s =
        Inr (if IsDayFirstFormat b CHR ''-'' then TryParseFormat P b ''%d-%m-%Y %H:%M:%S'' n else None)"
    by (simp add: datetime_path(1) [OF p an] f dash_only [OF c] del: not_None_eq)
next
  fix t ni b n
  assume h: "Trim s = Inr t \<and> t \<noteq> [] \<and> \<not> hex_prefixed t \<and> CheckNumeric t = Inr ni \<and> \<not> is_number ni
        \<and> ExtractFractionalSeconds t = Inr (b, n)
        \<and> find (\<lambda>f. date_parse P f b \<noteq> None) UNAMBIGUOUS_FORMATS = None
        \<and> CHR ''-'' \<in> set b \<and> CHR ''/'' \<notin> set b \<and> b ! 0 \<noteq> CHR ''2''"
  then have p: "Trim s = Inr t" "t \<noteq> []" "CheckNumeric t = Inr ni" "ExtractFractionalSeconds t = Inr (b, n)"
    and q: "\<not> hex_prefixed t" "\<not> is_number ni"
    and f: "find (\<lambda>f. date_parse P f b \<noteq> None) UNAMBIGUOUS_FORMATS = None"
    and c: "CHR ''-'' \<in> set b" "CHR ''/'' \<notin> set b" "b ! 0 \<noteq> CHR ''2''"
    by simp_all
  show "DetectColumnType P s =
        Inr (if IsDayFirstFormat b CHR ''-'' \<and> date_parse P ''%d-%m-%Y %H:%M:%S'' b \<noteq> None
             then \<lparr>type = DATETIME, format = ''%d-%m-%Y %H:%M:%S'', has_fractional = (0 < n \<or> t \<noteq> b)\<rparr>
             else \<lparr>type = STRING, format = [], has_fractional = (0 < n \<or> t \<noteq> b)\<rparr>)"
    by (simp add: datetime_path(2) [OF p q] f dash_only [OF c] del: not_None_eq)
qed

theorem dash_dates_day_first_only_witness:
  "find (\<lambda>f. date_parse reference_prims f ''05-13-2024 10:00:00'' \<noteq> None) UNAMBIGUOUS_FORMATS = None
   \<and> IsDayFirstFormat ''05-13-2024 10:00:00'' CHR ''-'' = False
   \<and> AutoParseTimestamp reference_prims ''05-13-2024 10:00:00'' = Inr None
   \<and> DetectColumnType reference_prims ''05-13-2024 10:00:00''
       = Inr \<lparr>type = STRING, format = [], has_fractional = False\<rparr>
   \<and> find (\<lambda>f. date_parse reference_prims f ''13-05-2024 10:00:00'' \<noteq> None) UNAMBIGUOUS_FORMATS = None
   \<and> IsDayFirstFormat ''13-05-2024 10:00:00'' CHR ''-'' = True
   \<and> AutoParseTimestamp reference_prims ''13-05-2024 10:00:00'' = Inr (Some (Fin 1715594400))
   \<and> DetectColumnType reference_prims ''13-05-2024 10:00:00''
       = Inr \<lparr>type = DATETIME, format = ''%d-%m-%Y %H:%M:%S'', has_fractional = False\<rparr>
   \<and> CheckNumeric ''-99999999999999999999''
       = Inr \<lparr>is_number = True, has_decimal = False, has_exponent = False\<rparr>
   \<and> auto_numeric reference_prims ''-99999999999999999999''
         \<lparr>is_number = True, has_decimal = False, has_exponent = False\<rparr> = Inr None
   \<and> IsDayFirstFormat ''-99999999999999999999'' CHR ''-'' = True
   \<and> AutoParseTimestamp reference_prims ''-99999999999999999999'' = Inr None"
proof -
  let ?N = "\<lparr>is_number = False, has_decimal = False, has_exponent = False\<rparr>"
  let ?M = "\<lparr>is_number = True, has_decimal = False, has_exponent = False\<rparr>"
  have v: "Trim ''05-13-2024 10:00:00'' = Inr ''05-13-2024 10:00:00''"
    "CheckNumeric ''05-13-2024 10:00:00'' = Inr ?N"
    "auto_numeric reference_prims ''05-13-2024 10:00:00'' ?N = Inr None"
    "ExtractFractionalSeconds ''05-13-2024 10:00:00'' = Inr (''05-13-2024 10:00:00'', 0)"
    "find (\<lambda>f. date_parse reference_prims f ''05-13-2024 10:00:00'' \<noteq> None) UNAMBIGUOUS_FORMATS = None"
    "IsDayFirstFormat ''05-13-2024 10:00:00'' CHR ''-'' = False"
    "\<not> hex_prefixed ''05-13-2024 10:00:00''" "CHR ''-'' \<in> set ''05-13-2024 10:00:00''"
    "CHR ''/'' \<notin> set ''05-13-2024 10:00:00''" "''05-13-2024 10:00:00'' ! 0 \<noteq> CHR ''2''"
    by code_simp+
  have w: "Trim ''13-05-2024 10:00:00'' = Inr ''13-05-2024 10:00:00''"
    "CheckNumeric ''13-05-2024 10:00:00'' = Inr ?N"
    "auto_numeric reference_prims ''13-05-2024 10:00:00'' ?N = Inr None"
    "ExtractFractionalSeconds ''13-05-2024 10:00:00'' = Inr (''13-05-2024 10:00:00'', 0)"
    "find (\<lambda>f. date_parse reference_prims f ''13-05-2024 10:00:00'' \<noteq> None) UNAMBIGUOUS_FORMATS = None"
    "IsDayFirstFormat ''13-05-2024 10:00:00'' CHR ''-'' = True"
    "\<not> hex_prefixed ''13-05-2024 10:00:00''" "CHR ''-'' \<in> set ''13-05-2024 10:00:00''"
    "CHR ''/'' \<notin> set ''13-05-2024 10:00:00''" "''13-05-2024 10:00:00'' ! 0 \<noteq> CHR ''2''"
    by code_simp+
  have wv: "TryParseFormat reference_prims ''13-05-2024 10:00:00'' ''%d-%m-%Y %H:%M:%S'' 0 = Some (Fin 1715594400)"
    "date_parse reference_prims ''%d-%m-%Y %H:%M:%S'' ''13-05-2024 10:00:00'' \<noteq> None"
    by code_simp+
  have x: "Trim ''-99999999999999999999'' = Inr ''-99999999999999999999''"
    "CheckNumeric ''-99999999999999999999'' = Inr ?M"
    "auto_numeric reference_prims ''-99999999999999999999'' ?M = Inr None"
    "ExtractFractionalSeconds ''-99999999999999999999'' = Inr (''-99999999999999999999'', 0)"
    "find (\<lambda>f. date_parse reference_prims f ''-99999999999999999999'' \<noteq> None) UNAMBIGUOUS_FORMATS = None"
    "IsDayFirstFormat ''-99999999999999999999'' CHR ''-'' = True"
    "CHR ''-'' \<in> set ''-99999999999999999999''"
    "CHR ''/'' \<notin> set ''-99999999999999999999''" "''-99999999999999999999'' ! 0 \<noteq> CHR ''2''"
    "TryParseFormat reference_prims ''-99999999999999999999'' ''%d-%m-%Y %H:%M:%S'' 0 = None"
    by code_simp+
  have ne: "''05-13-2024 10:00:00'' \<noteq> []" "''13-05-2024 10:00:00'' \<noteq> []" "''-99999999999999999999'' \<noteq> []"
    "\<not> is_number ?N"
    by simp_all
  note A = dash_dates_day_first_only [of "''05-13-2024 10:00:00''" reference_prims, THEN conjunct1,
      THEN spec, THEN spec, THEN spec, THEN spec, THEN mp,
      OF conjI [OF v(1) conjI [OF ne(1) conjI [OF v(2) conjI [OF v(3) conjI [OF v(4) conjI [OF v(5)
         conjI [OF v(8) conjI [OF v(9) v(10)]]]]]]]]]
  note D = dash_dates_day_first_only [of "''05-13-2024 10:00:00''" reference_prims, THEN conjunct2,
      THEN spec, THEN spec, THEN spec, THEN spec, THEN mp,
      OF conjI [OF v(1) conjI [OF ne(1) conjI [OF v(7) conjI [OF v(2) conjI [OF ne(4) conjI [OF v(4)
         conjI [OF v(5) conjI [OF v(8) conjI [OF v(9) v(10)]]]]]]]]]]
  note B = dash_dates_day_first_only [of "''13-05-2024 10:00:00''" reference_prims, THEN conjunct1,
      THEN spec, THEN spec, THEN spec, THEN spec, THEN mp,
      OF conjI [OF w(1) conjI [OF ne(2) conjI [OF w(2) conjI [OF w(3) conjI [OF w(4) conjI [OF w(5)
         conjI [OF w(8) conjI [OF w(9) w(10)]]]]]]]]]
  note E = dash_dates_day_first_only [of "''13-05-2024 10:00:00''" reference_prims, THEN conjunct2,
      THEN spec, THEN spec, THEN spec, THEN spec, THEN mp,
      OF conjI [OF w(1) conjI [OF ne(2) conjI [OF w(7) conjI [OF w(2) conjI [OF ne(4) conjI [OF w(4)
         conjI [OF w(5) conjI [OF w(8) conjI [OF w(9) w(10)]]]]]]]]]]
  note C = dash_dates_day_first_only [of "''-99999999999999999999''" reference_prims, THEN conjunct1,
      THEN spec, THEN spec, THEN spec, THEN spec, THEN mp,
      OF conjI [OF x(1) conjI [OF ne(3) conjI [OF x(2) conjI [OF x(3) conjI [OF x(4) conjI [OF x(5)
         conjI [OF x(7) conjI [OF x(8) x(9)]]]]]]]]]
  from A have a: "AutoParseTimestamp reference_prims ''05-13-2024 10:00:00'' = Inr None"
    by (simp only: v(6) if_False)
  from D have d: "DetectColumnType reference_prims ''05-13-2024 10:00:00''
       = Inr \<lparr>type = STRING, format = [], has_fractional = False\<rparr>"
    by (simp add: v(6))
  from B have b: "AutoParseTimestamp reference_prims ''13-05-2024 10:00:00'' = Inr (Some (Fin 1715594400))"
    by (simp only: w(6) if_True wv(1))
  from E wv(2) have e: "DetectColumnType reference_prims ''13-05-2024 10:00:00''
       = Inr \<lparr>type = DATETIME, format = ''%d-%m-%Y %H:%M:%S'', has_fractional = False\<rparr>"
    by (simp add: w(6) del: not_None_eq)
  from C have c: "AutoParseTimestamp reference_prims ''-99999999999999999999'' = Inr None"
    by (simp only: x(6) if_True x(10))
  show ?thesis
    by (intro conjI v(5,6) a d w(5,6) b e x(2,3,6) c)
qed

text \<open>C3 as stated fails at \<open>05-13-2024 10:00:00\<close>: \<open>IsDayFirstFormat\<close> returns false, the
  month-first pattern \<open>%m-%d-%Y %H:%M:%S\<close> would match the string, and yet the result is no
  value and the type \<open>STRING\<close>: that pattern is not tried.\<close>

theorem dash_month_first_not_tried:
  "IsDayFirstFormat ''05-13-2024 10:00:00'' CHR ''-'' = False
   \<and> TryParseFormat reference_prims ''05-13-2024 10:00:00'' ''%m-%d-%Y %H:%M:%S'' 0 = Some (Fin 1715594400)
   \<and> AutoParseTimestamp reference_prims ''05-13-2024 10:00:00'' = Inr None
   \<and> DetectColumnType reference_prims ''05-13-2024 10:00:00''
       = Inr \<lparr>type = STRING, format = [], has_fractional = False\<rparr>"
  by code_simp

text \<open>C4, as the code has it: \<open>IsDayFirstFormat\<close> returns true when the first numeric field
  is greater than 12 and at most 31; otherwise it returns false when the second numeric
  field is greater than 12 and at most 31; otherwise it returns true. (The fields are below
  \<open>2 ^ 31\<close>, so that the \<^verbatim>\<open>int\<close> accumulators hold them.) In particular it is true for
  \<open>13/05/2024\<close>, false for \<open>05/13/2024\<close> and true for \<open>05/06/2024\<close>, with separator \<open>/\<close>.\<close>

theorem IsDayFirstFormat_rule:
  "(first_field str < 2 ^ 31 \<and> second_field str separator < 2 ^ 31 \<longrightarrow>
      IsDayFirstFormat str separator =
        (if 12 < first_field str \<and> first_field str \<le> 31 then True
         else if 12 < second_field str separator \<and> second_field str separator \<le> 31 then False
         else True))
   \<and> IsDayFirstFormat ''13/05/2024'' CHR ''/'' = True
   \<and> IsDayFirstFormat ''05/13/2024'' CHR ''/'' = False
   \<and> IsDayFirstFormat ''05/06/2024'' CHR ''/'' = True"
proof -
  have e: "IsDayFirstFormat ''13/05/2024'' CHR ''/'' = True"
    "IsDayFirstFormat ''05/13/2024'' CHR ''/'' = False"
    "IsDayFirstFormat ''05/06/2024'' CHR ''/'' = True"
    by code_simp+
  show ?thesis
  proof (intro conjI impI)
    assume "first_field str < 2 ^ 31 \<and> second_field str separator < 2 ^ 31"
    then show "IsDayFirstFormat str separator =
        (if 12 < first_field str \<and> first_field str \<le> 31 then True
         else if 12 < second_field str separator \<and> second_field str separator \<le> 31 then False
         else True)"
      by (intro IsDayFirstFormat_by_fields) simp_all
  qed (rule e)+
qed

theorem IsDayFirstFormat_rule_witness:
  "first_field ''25/12/2024'' = 25 \<and> second_field ''25/12/2024'' CHR ''/'' = 12
   \<and> IsDayFirstFormat ''25/12/2024'' CHR ''/'' = True
   \<and> first_field ''12/25/2024'' = 12 \<and> second_field ''12/25/2024'' CHR ''/'' = 25
   \<and> IsDayFirstFormat ''12/25/2024'' CHR ''/'' = False"
proof -
  have f: "first_field ''25/12/2024'' = 25" "second_field ''25/12/2024'' CHR ''/'' = 12"
    "first_field ''12/25/2024'' = 12" "second_field ''12/25/2024'' CHR ''/'' = 25"
    by code_simp+
  have b1: "first_field ''25/12/2024'' < 2 ^ 31 \<and> second_field ''25/12/2024'' CHR ''/'' < 2 ^ 31"
    by (simp add: f)
  have b2: "first_field ''12/25/2024'' < 2 ^ 31 \<and> second_field ''12/25/2024'' CHR ''/'' < 2 ^ 31"
    by (simp add: f)
  from IsDayFirstFormat_rule [of "''25/12/2024''" "CHR ''/''", THEN conjunct1, THEN mp, OF b1]
  have r1: "IsDayFirstFormat ''25/12/2024'' CHR ''/'' = True"
    by (simp add: f)
  from IsDayFirstFormat_rule [of "''12/25/2024''" "CHR ''/''", THEN conjunct1, THEN mp, OF b2]
  have r2: "IsDayFirstFormat ''12/25/2024'' CHR ''/'' = False"
    by (simp add: f)
  show ?thesis
    by (intro conjI f r1 r2)
qed

text \<open>C4 as stated fails above 31: the first field of \<open>45/13/2024\<close> is greater than 12 and
  the result is false; the first field of \<open>05/45/2024\<close> is not greater than 12, the
  second is, and the result is true.\<close>

theorem IsDayFirstFormat_first_above_31:
  "12 < first_field ''45/13/2024'' \<and> IsDayFirstFormat ''45/13/2024'' CHR ''/'' = False
   \<and> \<not> 12 < first_field ''05/45/2024'' \<and> 12 < second_field ''05/45/2024'' CHR ''/''
   \<and> IsDayFirstFormat ''05/45/2024'' CHR ''/'' = True"
  by code_simp

text \<open>C5, as the code has it: for a \<open>ColumnTypeInfo\<close> of type \<open>DATETIME\<close> \<open>ParseWithType\<close>
  always runs the fractional-second splitter on the trimmed value and parses the base string
  it returns with the stored format string, adding the nanoseconds of the split only if
  \<open>has_fractional\<close> was recorded; the result depends on the calendar primitive at the stored
  format only, so the fixed table is never used. For a \<open>ColumnTypeInfo\<close> of type \<open>STRING\<close>
  \<open>ParseWithType\<close> always returns no value.\<close>

theorem ParseWithType_datetime_stored_format:
  "(\<forall>t b n. Trim s = Inr t \<and> t \<noteq> [] \<and> type ti = DATETIME \<and> ExtractFractionalSeconds t = Inr (b, n) \<longrightarrow>
      ParseWithType P s ti
        = Inr (TryParseFormat P b (c_str (format ti)) (if has_fractional ti then n else 0)))
   \<and> (type ti = DATETIME \<and> date_parse P' (c_str (format ti)) = date_parse P (c_str (format ti)) \<longrightarrow>
        ParseWithType P' s ti = ParseWithType P s ti)
   \<and> (type ti = STRING \<longrightarrow> ParseWithType P s ti = Inr None)"
proof (intro conjI impI allI)
  obtain t where t: "Trim s = Inr t"
    using Trim_total by blast
  obtain b n where bn: "ExtractFractionalSeconds t = Inr (b, n)"
    using Extract_total by blast
  show "ParseWithType P s ti
        = Inr (TryParseFormat P b' (c_str (format ti)) (if has_fractional ti then n' else 0))"
    if "Trim s = Inr t' \<and> t' \<noteq> [] \<and> type ti = DATETIME \<and> ExtractFractionalSeconds t' = Inr (b', n')"
    for t' b' n'
    using that ParseWithType_eq [of s t' b' n' P ti] by simp
  show "ParseWithType P' s ti = ParseWithType P s ti"
    if "type ti = DATETIME \<and> date_parse P' (c_str (format ti)) = date_parse P (c_str (format ti))"
  proof (cases "t = []")
    case True
    with t show ?thesis by (simp add: ParseWithType_blank)
  next
    case False
    from that have "TryParseFormat P' b (c_str (format ti)) k = TryParseFormat P b (c_str (format ti)) k" for k
      by (simp add: TryParseFormat_def)
    with that show ?thesis
      by (simp add: ParseWithType_eq [OF t False bn])
  qed
  show "ParseWithType P s ti = Inr None" if "type ti = STRING"
  proof (cases "t = []")
    case True
    with t show ?thesis by (simp add: ParseWithType_blank)
  next
    case False
    with that show ?thesis
      by (simp add: ParseWithType_eq [OF t False bn])
  qed
qed

theorem ParseWithType_datetime_stored_format_witness:
  "Trim ''2024-01-15T10:30:00.5Z'' = Inr ''2024-01-15T10:30:00.5Z''
   \<and> ExtractFractionalSeconds ''2024-01-15T10:30:00.5Z'' = Inr (''2024-01-15T10:30:00Z'', 500000000)
   \<and> ParseWithType reference_prims ''2024-01-15T10:30:00.5Z''
        \<lparr>type = DATETIME, format = ''%Y-%m-%dT%H:%M:%SZ'', has_fractional = True\<rparr>
       = Inr (Some (Fin (3410629201 / 2)))
   \<and> ParseWithType reference_prims ''2024-01-15T10:30:00.5Z''
        \<lparr>type = DATETIME, format = ''%Y-%m-%dT%H:%M:%SZ'', has_fractional = False\<rparr>
       = Inr (Some (Fin 1705314600))
   \<and> ParseWithType reference_prims ''2024-01-15T10:30:00.5Z''
        \<lparr>type = STRING, format = ''%Y-%m-%dT%H:%M:%SZ'', has_fractional = False\<rparr> = Inr None"
proof -
  have v: "Trim ''2024-01-15T10:30:00.5Z'' = Inr ''2024-01-15T10:30:00.5Z''"
    "ExtractFractionalSeconds ''2024-01-15T10:30:00.5Z'' = Inr (''2024-01-15T10:30:00Z'', 500000000)"
    by code_simp+
  have e: "TryParseFormat reference_prims ''2024-01-15T10:30:00Z'' (c_str ''%Y-%m-%dT%H:%M:%SZ'') 500000000
           = Some (Fin (3410629201 / 2))"
    "TryParseFormat reference_prims ''2024-01-15T10:30:00Z'' (c_str ''%Y-%m-%dT%H:%M:%SZ'') 0
           = Some (Fin 1705314600)"
    by code_simp+
  have h: "Trim ''2024-01-15T10:30:00.5Z'' = Inr ''2024-01-15T10:30:00.5Z'' \<and> ''2024-01-15T10:30:00.5Z'' \<noteq> []
           \<and> type \<lparr>type = DATETIME, format = ''%Y-%m-%dT%H:%M:%SZ'', has_fractional = hf\<rparr> = DATETIME
           \<and> ExtractFractionalSeconds ''2024-01-15T10:30:00.5Z'' = Inr (''2024-01-15T10:30:00Z'', 500000000)" for hf
    using v by simp
  note a = ParseWithType_datetime_stored_format [of "''2024-01-15T10:30:00.5Z''" _ reference_prims,
      THEN conjunct1, THEN spec, THEN spec, THEN spec, THEN mp, OF h]
  from a [of True] have r1: "ParseWithType reference_prims ''2024-01-15T10:30:00.5Z''
        \<lparr>type = DATETIME, format = ''%Y-%m-%dT%H:%M:%SZ'', has_fractional = True\<rparr>
       = Inr (Some (Fin (3410629201 / 2)))"
    by (simp add: e)
  from a [of False] have r2: "ParseWithType reference_prims ''2024-01-15T10:30:00.5Z''
        \<lparr>type = DATETIME, format = ''%Y-%m-%dT%H:%M:%SZ'', has_fractional = False\<rparr>
       = Inr (Some (Fin 1705314600))"
    by (simp add: e)
  have st: "type \<lparr>type = STRING, format = ''%Y-%m-%dT%H:%M:%SZ'', has_fractional = False\<rparr> = STRING"
    by simp
  note r3 = ParseWithType_datetime_stored_format [of "''2024-01-15T10:30:00.5Z''" _ reference_prims,
      THEN conjunct2, THEN conjunct2, THEN mp, OF st]
  show ?thesis
    by (intro conjI v r1 r2 r3)
qed

text \<open>C5 as stated fails at the value \<open>2024-01-15T10:30:00.5Z\<close> with the format
  \<open>%Y-%m-%dT%H:%M:%SZ\<close> and \<open>has_fractional\<close> not recorded: parsing the value unsplit, as
  the claim words it, fails at the \<open>.\<close>, while the code splits \<open>.5\<close> off, parses the base
  string and returns its time.\<close>

theorem ParseWithType_always_splits:
  "parse_datetime_as_specified reference_prims ''2024-01-15T10:30:00.5Z''
     \<lparr>type = DATETIME, format = ''%Y-%m-%dT%H:%M:%SZ'', has_fractional = False\<rparr> = Inr None
   \<and> parse_datetime reference_prims ''2024-01-15T10:30:00.5Z''
     \<lparr>type = DATETIME, format = ''%Y-%m-%dT%H:%M:%SZ'', has_fractional = False\<rparr> = Inr (Some (Fin 1705314600))
   \<and> ParseWithType reference_prims ''2024-01-15T10:30:00.5Z''
     \<lparr>type = DATETIME, format = ''%Y-%m-%dT%H:%M:%SZ'', has_fractional = False\<rparr> = Inr (Some (Fin 1705314600))"
  by code_simp



text \<open>C7: for every integer \<open>t\<close> with \<open>EPOCH_FIRST < t < EPOCH_LAST\<close> (both strict, the
  constants being 1400000000 and 2000000000), \<open>DetectEpochType t\<close> is \<open>EPOCH_SECONDS\<close> and
  \<open>EpochToSeconds t EPOCH_SECONDS\<close> is \<open>t\<close> exactly as a double. In general
  \<open>DetectEpochType\<close> tests the nanosecond, microsecond, millisecond and second windows in
  that order, returns the first one \<open>t\<close> is strictly inside, and returns \<open>NUMBER\<close> when \<open>t\<close>
  is in none of the four; the bounds themselves are outside.\<close>

theorem DetectEpochType_windows:
  "(EPOCH_FIRST < t \<and> t < EPOCH_LAST \<longrightarrow>
      DetectEpochType t = EPOCH_SECONDS \<and> EpochToSeconds t EPOCH_SECONDS = Fin (of_int t))
   \<and> EPOCH_FIRST = 1400000000 \<and> EPOCH_LAST = 2000000000
   \<and> DetectEpochType t =
       (if 1400000000000000000 < t \<and> t < 2000000000000000000 then EPOCH_NANOS
        else if 1400000000000000 < t \<and> t < 2000000000000000 then EPOCH_MICROS
        else if 1400000000000 < t \<and> t < 2000000000000 then EPOCH_MILLIS
        else if 1400000000 < t \<and> t < 2000000000 then EPOCH_SECONDS
        else NUMBER)
   \<and> DetectEpochType EPOCH_FIRST = NUMBER \<and> DetectEpochType EPOCH_LAST = NUMBER"
proof -
  have sec: "DetectEpochType t = EPOCH_SECONDS \<and> EpochToSeconds t EPOCH_SECONDS = Fin (of_int t)"
    if "EPOCH_FIRST < t" "t < EPOCH_LAST"
  proof -
    from that have r: "1400000000 < t" "t < 2000000000"
      by (simp_all add: EPOCH_FIRST_def EPOCH_LAST_def)
    then have "\<bar>t\<bar> < 2 ^ 53"
      by simp
    then have "double_of_int64 t = of_int t"
      unfolding double_of_int64_def by (rule round_double_of_int_exact)
    then have "EpochToSeconds t EPOCH_SECONDS = Fin (of_int t)"
      by (simp add: EpochToSeconds_def)
    with DetectEpochType_seconds [OF r] show ?thesis
      by simp
  qed
  have ends: "DetectEpochType EPOCH_FIRST = NUMBER" "DetectEpochType EPOCH_LAST = NUMBER"
    by (simp_all add: DetectEpochType_chain EPOCH_FIRST_def EPOCH_LAST_def)
  have cs: "EPOCH_FIRST = 1400000000" "EPOCH_LAST = 2000000000"
    by (simp_all add: EPOCH_FIRST_def EPOCH_LAST_def)
  show ?thesis
  proof (intro conjI impI)
    assume "EPOCH_FIRST < t \<and> t < EPOCH_LAST"
    then show "DetectEpochType t = EPOCH_SECONDS" "EpochToSeconds t EPOCH_SECONDS = Fin (of_int t)"
      using sec by (simp_all only:)
  qed (rule cs ends DetectEpochType_chain)+
qed

theorem DetectEpochType_windows_witness:
  "EPOCH_FIRST < 1718000000 \<and> 1718000000 < EPOCH_LAST
   \<and> DetectEpochType 1718000000 = EPOCH_SECONDS
   \<and> EpochToSeconds 1718000000 EPOCH_SECONDS = Fin 1718000000"
proof -
  have r: "EPOCH_FIRST < 1718000000 \<and> 1718000000 < EPOCH_LAST"
    by (simp add: EPOCH_FIRST_def EPOCH_LAST_def)
  from DetectEpochType_windows [of 1718000000, THEN conjunct1, THEN mp, OF r]
  have "DetectEpochType 1718000000 = EPOCH_SECONDS
          \<and> EpochToSeconds 1718000000 EPOCH_SECONDS = Fin (of_int 1718000000)" .
  then have "DetectEpochType 1718000000 = EPOCH_SECONDS
          \<and> EpochToSeconds 1718000000 EPOCH_SECONDS = Fin 1718000000"
    by (simp only: of_int_numeral)
  with r show ?thesis
    by (simp only: simp_thms)
qed

text \<open>C8: for every input string \<open>ExtractFractionalSeconds\<close> returns a count of nanoseconds
  between 0 and 999999999. When the last \<open>.\<close> comes after the last \<open>:\<close> and a digit follows
  it, the count is the digit run after that \<open>.\<close>, padded on the right with zeros to nine
  digits or cut to its first nine, and the base string is the input without the \<open>.\<close> and the
  run. In every other case (the string has no \<open>.\<close>, or no \<open>:\<close>, or the last \<open>.\<close> comes
  before the last \<open>:\<close>, or no digit follows the last \<open>.\<close>) the input is returned unchanged
  with zero nanoseconds. In particular \<open>12:30:45.5\<close> gives \<open>12:30:45\<close> and 500000000,
  \<open>12:30:45\<close> gives itself and 0, and \<open>2024.01.01\<close> gives itself and 0.\<close>

theorem ExtractFractionalSeconds_nanos:
  "(\<exists>base ns. ExtractFractionalSeconds input = Inr (base, ns) \<and> 0 \<le> ns \<and> ns \<le> 999999999)
   \<and> (\<forall>d c. rfind_char input CHR ''.'' = Some d \<and> rfind_char input CHR '':'' = Some c \<and> c < d
           \<and> takeWhile isdigit (drop (d + 1) input) \<noteq> [] \<longrightarrow>
         ExtractFractionalSeconds input =
           Inr (take d input @ drop (d + 1 + length (takeWhile isdigit (drop (d + 1) input))) input,
                digits_value 10
                  (take 9 (takeWhile isdigit (drop (d + 1) input) @ replicate 9 CHR ''0''))))
   \<and> (rfind_char input CHR ''.'' = None \<or> rfind_char input CHR '':'' = None
        \<or> (\<exists>d c. rfind_char input CHR ''.'' = Some d \<and> rfind_char input CHR '':'' = Some c
              \<and> (d < c \<or> takeWhile isdigit (drop (d + 1) input) = []))
        \<longrightarrow> ExtractFractionalSeconds input = Inr (input, 0))
   \<and> ExtractFractionalSeconds ''12:30:45.5'' = Inr (''12:30:45'', 500000000)
   \<and> ExtractFractionalSeconds ''12:30:45'' = Inr (''12:30:45'', 0)
   \<and> ExtractFractionalSeconds ''2024.01.01'' = Inr (''2024.01.01'', 0)"
proof -
  have a: "\<exists>base ns. ExtractFractionalSeconds input = Inr (base, ns) \<and> 0 \<le> ns \<and> ns \<le> 999999999"
    by (rule Extract_total)
  have b: "\<forall>d c. rfind_char input CHR ''.'' = Some d \<and> rfind_char input CHR '':'' = Some c \<and> c < d
           \<and> takeWhile isdigit (drop (d + 1) input) \<noteq> [] \<longrightarrow>
         ExtractFractionalSeconds input =
           Inr (take d input @ drop (d + 1 + length (takeWhile isdigit (drop (d + 1) input))) input,
                digits_value 10
                  (take 9 (takeWhile isdigit (drop (d + 1) input) @ replicate 9 CHR ''0'')))"
  proof (intro allI impI, elim conjE)
    fix d c
    assume h: "rfind_char input CHR ''.'' = Some d" "rfind_char input CHR '':'' = Some c" "c < d"
      "takeWhile isdigit (drop (d + 1) input) \<noteq> []"
    show "ExtractFractionalSeconds input =
           Inr (take d input @ drop (d + 1 + length (takeWhile isdigit (drop (d + 1) input))) input,
                digits_value 10
                  (take 9 (takeWhile isdigit (drop (d + 1) input) @ replicate 9 CHR ''0'')))"
      by (rule Extract_split [OF h(1,2,3) refl h(4)])
  qed
  have c: "rfind_char input CHR ''.'' = None \<or> rfind_char input CHR '':'' = None
        \<or> (\<exists>d c. rfind_char input CHR ''.'' = Some d \<and> rfind_char input CHR '':'' = Some c
              \<and> (d < c \<or> takeWhile isdigit (drop (d + 1) input) = []))
        \<longrightarrow> ExtractFractionalSeconds input = Inr (input, 0)"
  proof
    assume "rfind_char input CHR ''.'' = None \<or> rfind_char input CHR '':'' = None
        \<or> (\<exists>d c. rfind_char input CHR ''.'' = Some d \<and> rfind_char input CHR '':'' = Some c
              \<and> (d < c \<or> takeWhile isdigit (drop (d + 1) input) = []))"
    then have "rfind_char input CHR ''.'' = None \<or> rfind_char input CHR '':'' = None
           \<or> (\<exists>d c. rfind_char input CHR ''.'' = Some d \<and> rfind_char input CHR '':'' = Some c
                \<and> (d \<le> c \<or> takeWhile isdigit (drop (d + 1) input) = []))"
      by (meson less_imp_le)
    then show "ExtractFractionalSeconds input = Inr (input, 0)"
      by (rule Extract_unchanged)
  qed
  have e1: "ExtractFractionalSeconds ''12:30:45.5'' = Inr (''12:30:45'', 500000000)"
    by code_simp
  have e2: "ExtractFractionalSeconds ''12:30:45'' = Inr (''12:30:45'', 0)"
    by code_simp
  have e3: "ExtractFractionalSeconds ''2024.01.01'' = Inr (''2024.01.01'', 0)"
    by code_simp
  show ?thesis
    by (intro conjI a b c e1 e2 e3)
qed

theorem ExtractFractionalSeconds_nanos_witness:
  "rfind_char ''10:00:07.25Z'' CHR ''.'' = Some 8 \<and> rfind_char ''10:00:07.25Z'' CHR '':'' = Some 5
   \<and> takeWhile isdigit (drop (8 + 1) ''10:00:07.25Z'') = ''25''
   \<and> ExtractFractionalSeconds ''10:00:07.25Z'' = Inr (''10:00:07Z'', 250000000)
   \<and> rfind_char ''1.5 10:00'' CHR ''.'' = Some 1 \<and> rfind_char ''1.5 10:00'' CHR '':'' = Some 6
   \<and> ExtractFractionalSeconds ''1.5 10:00'' = Inr (''1.5 10:00'', 0)
   \<and> rfind_char ''12:30:45.'' CHR ''.'' = Some 8 \<and> rfind_char ''12:30:45.'' CHR '':'' = Some 5
   \<and> takeWhile isdigit (drop (8 + 1) ''12:30:45.'') = []
   \<and> ExtractFractionalSeconds ''12:30:45.'' = Inr (''12:30:45.'', 0)"
proof -
  have p: "rfind_char ''10:00:07.25Z'' CHR ''.'' = Some 8" "rfind_char ''10:00:07.25Z'' CHR '':'' = Some 5"
    "takeWhile isdigit (drop (8 + 1) ''10:00:07.25Z'') = ''25''"
    "rfind_char ''1.5 10:00'' CHR ''.'' = Some 1" "rfind_char ''1.5 10:00'' CHR '':'' = Some 6"
    "rfind_char ''12:30:45.'' CHR ''.'' = Some 8" "rfind_char ''12:30:45.'' CHR '':'' = Some 5"
    "takeWhile isdigit (drop (8 + 1) ''12:30:45.'') = []"
    by code_simp+
  have n: "takeWhile isdigit (drop (8 + 1) ''10:00:07.25Z'') \<noteq> []" "(5::nat) < 8" "(1::nat) < 6"
    by code_simp+
  have v: "Inr (take 8 ''10:00:07.25Z''
               @ drop (8 + 1 + length (takeWhile isdigit (drop (8 + 1) ''10:00:07.25Z''))) ''10:00:07.25Z'',
             digits_value 10
               (take 9 (takeWhile isdigit (drop (8 + 1) ''10:00:07.25Z'') @ replicate 9 CHR ''0'')))
           = (Inr (''10:00:07Z'', 250000000) :: error + string \<times> int)"
    by code_simp
  note t1 = ExtractFractionalSeconds_nanos [of "''10:00:07.25Z''", THEN conjunct2, THEN conjunct1,
      THEN spec, THEN spec, THEN mp, OF conjI [OF p(1) conjI [OF p(2) conjI [OF n(2) n(1)]]]]
  have s: "ExtractFractionalSeconds ''10:00:07.25Z'' = Inr (''10:00:07Z'', 250000000)"
    by (rule trans [OF t1 v])
  have ex: "\<exists>d c. rfind_char ''1.5 10:00'' CHR ''.'' = Some d \<and> rfind_char ''1.5 10:00'' CHR '':'' = Some c
              \<and> (d < c \<or> takeWhile isdigit (drop (d + 1) ''1.5 10:00'') = [])"
    using p(4,5) n(3) by blast
  note t2 = ExtractFractionalSeconds_nanos [of "''1.5 10:00''", THEN conjunct2, THEN conjunct2,
      THEN conjunct1, THEN mp, OF disjI2 [OF disjI2 [OF ex]]]
  have ey: "\<exists>d c. rfind_char ''12:30:45.'' CHR ''.'' = Some d \<and> rfind_char ''12:30:45.'' CHR '':'' = Some c
              \<and> (d < c \<or> takeWhile isdigit (drop (d + 1) ''12:30:45.'') = [])"
    using p(6,7,8) by blast
  note t3 = ExtractFractionalSeconds_nanos [of "''12:30:45.''", THEN conjunct2, THEN conjunct2,
      THEN conjunct1, THEN mp, OF disjI2 [OF disjI2 [OF ey]]]
  show ?thesis
    by (intro conjI p s t2 t3)
qed

text \<open>C9: for every input none of \<open>DetectColumnType\<close>, \<open>ParseWithType\<close>,
  \<open>AutoParseTimestamp\<close>, \<open>FormatParseTimestamp\<close> lets an exception out: each returns a
  value. An empty input and one of white space only give the type \<open>STRING\<close> from
  \<open>DetectColumnType\<close> and no value from the three parsers. A failure to parse inside
  \<open>ParseWithType\<close> (the integer parse of a \<open>HEX\<close> or epoch value throws, the number
  primitive reports a failure) gives no value and is not thrown.\<close>

theorem entry_points_never_throw:
  "(\<exists>info. DetectColumnType P s = Inr info) \<and> (\<exists>r. ParseWithType P s ti = Inr r)
   \<and> (\<exists>r. AutoParseTimestamp P s = Inr r) \<and> (\<exists>r. FormatParseTimestamp P s fmt = Inr r)
   \<and> (set s \<subseteq> set trim_chars \<longrightarrow>
        DetectColumnType P s = Inr (ColumnTypeInfo_default\<lparr>type := STRING\<rparr>)
        \<and> ParseWithType P s ti = Inr None \<and> AutoParseTimestamp P s = Inr None
        \<and> FormatParseTimestamp P s fmt = Inr None)
   \<and> (\<forall>t e. Trim s = Inr t \<and> t \<noteq> [] \<and> type ti = HEX \<and> stoll 16 t = Inl e \<longrightarrow>
        ParseWithType P s ti = Inr None)
   \<and> (\<forall>t e. Trim s = Inr t \<and> t \<noteq> []
          \<and> type ti \<in> {EPOCH_SECONDS, EPOCH_MILLIS, EPOCH_MICROS, EPOCH_NANOS} \<and> stoll 10 t = Inl e \<longrightarrow>
        ParseWithType P s ti = Inr None)
   \<and> (\<forall>t. Trim s = Inr t \<and> t \<noteq> [] \<and> type ti = NUMBER \<and> toDouble P t = None \<longrightarrow>
        ParseWithType P s ti = Inr None)"
proof (intro conjI impI allI)
  show "\<exists>info. DetectColumnType P s = Inr info"
    by (rule DetectColumnType_total)
  show "\<exists>r. ParseWithType P s ti = Inr r"
    by (rule ParseWithType_total)
  show "\<exists>r. AutoParseTimestamp P s = Inr r"
    by (rule AutoParseTimestamp_total)
  show "\<exists>r. FormatParseTimestamp P s fmt = Inr r"
    by (rule FormatParseTimestamp_total)
  assume "set s \<subseteq> set trim_chars"
  then have b: "Trim s = Inr []"
    by (rule Trim_blank)
  show "DetectColumnType P s = Inr (ColumnTypeInfo_default\<lparr>type := STRING\<rparr>)"
    using b by (rule DetectColumnType_blank)
  show "ParseWithType P s ti = Inr None"
    using b by (rule ParseWithType_blank)
  show "AutoParseTimestamp P s = Inr None"
    using b by (rule AutoParseTimestamp_blank)
  show "FormatParseTimestamp P s fmt = Inr None"
    using b by (rule FormatParseTimestamp_blank)
next
  fix t e
  assume "Trim s = Inr t \<and> t \<noteq> [] \<and> type ti = HEX \<and> stoll 16 t = Inl e"
  then show "ParseWithType P s ti = Inr None"
    using ParseWithType_failure(1) by blast
next
  fix t e
  assume "Trim s = Inr t \<and> t \<noteq> []
          \<and> type ti \<in> {EPOCH_SECONDS, EPOCH_MILLIS, EPOCH_MICROS, EPOCH_NANOS} \<and> stoll 10 t = Inl e"
  then show "ParseWithType P s ti = Inr None"
    using ParseWithType_failure(2) by blast
next
  fix t
  assume "Trim s = Inr t \<and> t \<noteq> [] \<and> type ti = NUMBER \<and> toDouble P t = None"
  then show "ParseWithType P s ti = Inr None"
    using ParseWithType_failure(3) by blast
qed

theorem entry_points_never_throw_witness:
  "DetectColumnType reference_prims [CHR '' '', CHR 0x09] = Inr (ColumnTypeInfo_default\<lparr>type := STRING\<rparr>)
   \<and> ParseWithType reference_prims [CHR '' '', CHR 0x09] \<lparr>type = NUMBER, format = [], has_fractional = False\<rparr> = Inr None
   \<and> AutoParseTimestamp reference_prims [CHR '' '', CHR 0x09] = Inr None
   \<and> FormatParseTimestamp reference_prims [CHR '' '', CHR 0x09] ''yyyy-MM-dd'' = Inr None
   \<and> stoll 16 ''xyz'' = Inl InvalidArgument
   \<and> ParseWithType reference_prims ''xyz'' \<lparr>type = HEX, format = [], has_fractional = False\<rparr> = Inr None
   \<and> stoll 10 ''99999999999999999999'' = Inl OutOfRange
   \<and> ParseWithType reference_prims ''99999999999999999999''
        \<lparr>type = EPOCH_SECONDS, format = [], has_fractional = False\<rparr> = Inr None
   \<and> toDouble reference_prims ''1.2.3'' = None
   \<and> ParseWithType reference_prims ''1.2.3'' \<lparr>type = NUMBER, format = [], has_fractional = False\<rparr> = Inr None"
proof -
  have w: "set [CHR '' '', CHR 0x09] \<subseteq> set trim_chars"
    by (simp add: trim_chars_def)
  note a = entry_points_never_throw [of reference_prims "[CHR '' '', CHR 0x09]"
      "\<lparr>type = NUMBER, format = [], has_fractional = False\<rparr>" "''yyyy-MM-dd''",
      THEN conjunct2, THEN conjunct2, THEN conjunct2, THEN conjunct2, THEN conjunct1, THEN mp, OF w]
  have x: "stoll 16 ''xyz'' = Inl InvalidArgument" "stoll 10 ''99999999999999999999'' = Inl OutOfRange"
    "toDouble reference_prims ''1.2.3'' = None"
    "Trim ''xyz'' = Inr ''xyz''" "Trim ''99999999999999999999'' = Inr ''99999999999999999999''"
    "Trim ''1.2.3'' = Inr ''1.2.3''"
    by code_simp+
  have h: "Trim ''xyz'' = Inr ''xyz'' \<and> ''xyz'' \<noteq> []
           \<and> type \<lparr>type = HEX, format = [], has_fractional = False\<rparr> = HEX
           \<and> stoll 16 ''xyz'' = Inl InvalidArgument"
    using x by simp
  note b = entry_points_never_throw [of reference_prims "''xyz''"
      "\<lparr>type = HEX, format = [], has_fractional = False\<rparr>" "[]",
      THEN conjunct2, THEN conjunct2, THEN conjunct2, THEN conjunct2, THEN conjunct2, THEN conjunct1,
      THEN spec, THEN spec, THEN mp, OF h]
  have k: "Trim ''99999999999999999999'' = Inr ''99999999999999999999'' \<and> ''99999999999999999999'' \<noteq> []
           \<and> type \<lparr>type = EPOCH_SECONDS, format = [], has_fractional = False\<rparr>
               \<in> {EPOCH_SECONDS, EPOCH_MILLIS, EPOCH_MICROS, EPOCH_NANOS}
           \<and> stoll 10 ''99999999999999999999'' = Inl OutOfRange"
    using x by simp
  note c = entry_points_never_throw [of reference_prims "''99999999999999999999''"
      "\<lparr>type = EPOCH_SECONDS, format = [], has_fractional = False\<rparr>" "[]",
      THEN conjunct2, THEN conjunct2, THEN conjunct2, THEN conjunct2, THEN conjunct2, THEN conjunct2,
      THEN conjunct1, THEN spec, THEN spec, THEN mp, OF k]
  have m: "Trim ''1.2.3'' = Inr ''1.2.3'' \<and> ''1.2.3'' \<noteq> []
           \<and> type \<lparr>type = NUMBER, format = [], has_fractional = False\<rparr> = NUMBER
           \<and> toDouble reference_prims ''1.2.3'' = None"
    using x by simp
  note d = entry_points_never_throw [of reference_prims "''1.2.3''"
      "\<lparr>type = NUMBER, format = [], has_fractional = False\<rparr>" "[]",
      THEN conjunct2, THEN conjunct2, THEN conjunct2, THEN conjunct2, THEN conjunct2, THEN conjunct2,
      THEN conjunct2, THEN spec, THEN mp, OF m]
  show ?thesis
    by (intro conjI a [THEN conjunct1] a [THEN conjunct2, THEN conjunct1]
        a [THEN conjunct2, THEN conjunct2, THEN conjunct1] a [THEN conjunct2, THEN conjunct2, THEN conjunct2]
        x(1,2,3) b c d)
qed

text \<open>C10: \<open>CheckNumeric\<close> reads the last character of its argument after the scan loop
  whenever \<open>is_number\<close> still holds, which on the empty string (where the loop does not run)
  is a read outside the string; on every other string it returns. \<open>DetectColumnType\<close> and
  \<open>AutoParseTimestamp\<close> return before the call when the trimmed input is empty and otherwise
  pass the non-empty trimmed input, so neither of them ever meets the read out of bounds.\<close>

theorem CheckNumeric_back_in_bounds:
  "CheckNumeric [] = Inl OutOfBounds
   \<and> (str \<noteq> [] \<longrightarrow> (\<exists>info. CheckNumeric str = Inr info))
   \<and> (\<forall>t. Trim s = Inr t \<and> t \<noteq> [] \<longrightarrow> (\<exists>info. CheckNumeric t = Inr info))
   \<and> (Trim s = Inr [] \<longrightarrow>
        DetectColumnType P s = Inr (ColumnTypeInfo_default\<lparr>type := STRING\<rparr>)
        \<and> AutoParseTimestamp P s = Inr None)
   \<and> DetectColumnType P s \<noteq> Inl OutOfBounds
   \<and> AutoParseTimestamp P s \<noteq> Inl OutOfBounds"
proof (intro conjI impI allI)
  show "CheckNumeric [] = Inl OutOfBounds"
    by (rule CheckNumeric_Nil)
  show "\<exists>info. CheckNumeric str = Inr info" if "str \<noteq> []"
    using that by (rule CheckNumeric_total)
  show "\<exists>info. CheckNumeric t = Inr info" if "Trim s = Inr t \<and> t \<noteq> []" for t
    using that by (intro CheckNumeric_total) simp
  show "DetectColumnType P s = Inr (ColumnTypeInfo_default\<lparr>type := STRING\<rparr>)" if "Trim s = Inr []"
    using that by (rule DetectColumnType_blank)
  show "AutoParseTimestamp P s = Inr None" if "Trim s = Inr []"
    using that by (rule AutoParseTimestamp_blank)
  show "DetectColumnType P s \<noteq> Inl OutOfBounds"
    using DetectColumnType_total [of P s] by auto
  show "AutoParseTimestamp P s \<noteq> Inl OutOfBounds"
    using AutoParseTimestamp_total [of P s] by auto
qed

theorem CheckNumeric_back_in_bounds_witness:
  "Trim '' 42 '' = Inr ''42''
   \<and> (\<exists>info. CheckNumeric ''42'' = Inr info)
   \<and> Trim ''  '' = Inr []
   \<and> DetectColumnType reference_prims ''  '' = Inr (ColumnTypeInfo_default\<lparr>type := STRING\<rparr>)
   \<and> AutoParseTimestamp reference_prims ''  '' = Inr None"
proof -
  have t: "Trim '' 42 '' = Inr ''42''" "Trim ''  '' = Inr []"
    by code_simp+
  have n: "Trim '' 42 '' = Inr ''42'' \<and> ''42'' \<noteq> []"
    using t by simp
  note c = CheckNumeric_back_in_bounds [of _ "'' 42 ''", THEN conjunct2, THEN conjunct2, THEN conjunct1,
      THEN spec, THEN mp, OF n]
  note b = CheckNumeric_back_in_bounds [of _ "''  ''" reference_prims, THEN conjunct2, THEN conjunct2,
      THEN conjunct2, THEN conjunct1, THEN mp, OF t(2)]
  show ?thesis
    by (intro conjI t c b [THEN conjunct1] b [THEN conjunct2])
qed

end
